theory Spec2Isabelle
  imports Main "HOL-Library.Multiset"
begin

section \<open>Data model\<close>

text \<open>
  Values as \<open>JSON.parse\<close> produces them. Numbers are modelled as integers: every
  timestamp the program itself writes comes from \<open>Date.now()\<close>, an integral number of
  milliseconds. An object is the list of its members in the order of the text.
\<close>

datatype json =
    JNull
  | JBool bool
  | JNum int
  | JStr string
  | JArr "json list"
  | JObj "(string \<times> json) list"

text \<open>
  \<open>interface Memo\<close> of \<open>types.ts\<close>. The field \<open>id\<close> is written \<open>id'\<close>. TypeScript
  declares \<open>title: string\<close>, but \<open>handleImportFile\<close> stores \<open>m.title\<close> unchecked whenever
  it is truthy, so at run time the field holds an arbitrary JSON value; every other field
  is checked with \<open>typeof\<close> (or converted with \<open>!!\<close>) before it is stored.
\<close>

record Memo =
  id' :: string
  title :: json
  content :: string
  domain :: string
  url :: string
  isUrlSpecific :: bool
  createdAt :: int
  updatedAt :: int

text \<open>
  \<open>type MemoStore = Record<string, Memo>\<close>: a plain JavaScript object, modelled as
  the list of its own properties in the order in which \<open>Object.values\<close> and
  \<open>JSON.stringify\<close> enumerate them.
\<close>

type_synonym MemoStore = "(string \<times> Memo) list"


section \<open>Plain objects: the operations the storage module uses\<close>

text \<open>
  An own property key that is an array index (the canonical decimal form of an integer
  below \<open>2^32 - 1\<close>) is enumerated before all other keys, in ascending numeric order;
  the other keys follow in the order of their creation.
\<close>

definition isDigit :: "char \<Rightarrow> bool" where
  "isDigit c \<longleftrightarrow> 48 \<le> (of_char c :: nat) \<and> (of_char c :: nat) \<le> 57"

definition decimalValue :: "string \<Rightarrow> nat" where
  "decimalValue k = foldl (\<lambda>n c. 10 * n + (of_char c - 48)) 0 k"

definition arrayIndex :: "string \<Rightarrow> nat option" where
  "arrayIndex k =
     (if k \<noteq> [] \<and> list_all isDigit k \<and> (k = ''0'' \<or> hd k \<noteq> CHR ''0'')
         \<and> decimalValue k < 2 ^ 32 - 1
      then Some (decimalValue k) else None)"

fun insertIndexKey :: "nat \<Rightarrow> string \<times> 'v \<Rightarrow> (string \<times> 'v) list \<Rightarrow> (string \<times> 'v) list" where
  "insertIndexKey n p [] = [p]"
| "insertIndexKey n p (q # qs) =
     (case arrayIndex (fst q) of
        Some n' \<Rightarrow> if n < n' then p # q # qs else q # insertIndexKey n p qs
      | None \<Rightarrow> p # q # qs)"

text \<open>
  \<open>obj[k] = v\<close>. An existing own property keeps its place and takes the new value.
  Otherwise the assignment walks the prototype chain: \<open>Object.prototype\<close> has the
  accessor \<open>__proto__\<close>, whose setter replaces the prototype of \<open>obj\<close> and creates no
  own property; for every other key a new own property is created.
\<close>

definition setProperty :: "string \<Rightarrow> 'v \<Rightarrow> (string \<times> 'v) list \<Rightarrow> (string \<times> 'v) list" where
  "setProperty k v obj =
     (if k \<in> fst ` set obj then map (\<lambda>q. if fst q = k then (k, v) else q) obj
      else if k = ''__proto__'' then obj
      else case arrayIndex k of
             Some n \<Rightarrow> insertIndexKey n (k, v) obj
           | None \<Rightarrow> obj @ [(k, v)])"

text \<open>\<open>delete obj[k]\<close>: removes the own property if there is one, and never throws here.\<close>

definition deleteProperty :: "string \<Rightarrow> (string \<times> 'v) list \<Rightarrow> (string \<times> 'v) list" where
  "deleteProperty k obj = filter (\<lambda>q. fst q \<noteq> k) obj"

definition Object_values :: "(string \<times> 'v) list \<Rightarrow> 'v list" where
  "Object_values obj = map snd obj"

text \<open>
  \<open>Array.prototype.sort\<close> with a comparator is a stable sort: \<open>a\<close> stays before \<open>b\<close>
  unless the comparator returns a positive number for \<open>(a, b)\<close>. With a consistent
  comparator the result does not depend on the algorithm; this one is insertion sort.
\<close>

fun insertBy :: "('a \<Rightarrow> 'a \<Rightarrow> int) \<Rightarrow> 'a \<Rightarrow> 'a list \<Rightarrow> 'a list" where
  "insertBy cmp x [] = [x]"
| "insertBy cmp x (y # ys) = (if cmp x y \<le> 0 then x # y # ys else y # insertBy cmp x ys)"

definition Array_sort :: "('a \<Rightarrow> 'a \<Rightarrow> int) \<Rightarrow> 'a list \<Rightarrow> 'a list" where
  "Array_sort cmp xs = foldr (insertBy cmp) xs []"


section \<open>The persistent store (utils/storage.ts)\<close>

text \<open>
  The value kept under the key \<open>memos\<close> of the backend (\<open>chrome.storage.local\<close> inside
  the extension, \<open>localStorage\<close> outside; both branches of every function perform the
  same read, change and write). \<open>None\<close> is the key never written.
\<close>

type_synonym storage = "MemoStore option"

text \<open>\<open>(result.memos || {})\<close>, and \<open>getLocalStore\<close>.\<close>

definition readMemos :: "storage \<Rightarrow> MemoStore" where
  "readMemos st = (case st of None \<Rightarrow> [] | Some memos \<Rightarrow> memos)"

definition saveMemo :: "Memo \<Rightarrow> storage \<Rightarrow> storage" where
  "saveMemo memo st = Some (setProperty (id' memo) memo (readMemos st))"

text \<open>The comparator \<open>(a, b) => b.updatedAt - a.updatedAt\<close>.\<close>

definition byUpdatedAtDesc :: "Memo \<Rightarrow> Memo \<Rightarrow> int" where
  "byUpdatedAtDesc a b = updatedAt b - updatedAt a"

definition getMemosByDomain :: "string \<Rightarrow> storage \<Rightarrow> Memo list" where
  "getMemosByDomain d st =
     Array_sort byUpdatedAtDesc (filter (\<lambda>memo. domain memo = d) (Object_values (readMemos st)))"

definition getAllMemos :: "storage \<Rightarrow> Memo list" where
  "getAllMemos st = Object_values (readMemos st)"

definition deleteMemo :: "string \<Rightarrow> storage \<Rightarrow> storage" where
  "deleteMemo i st = Some (deleteProperty i (readMemos st))"


text \<open>
  What every store the functions above produce satisfies: the keys are distinct (it is
  an object) and each record sits under its own \<open>id\<close> (\<open>memos[memo.id] = memo\<close>).
\<close>

definition keyedById :: "MemoStore \<Rightarrow> bool" where
  "keyedById memos \<longleftrightarrow> distinct (map fst memos) \<and> list_all (\<lambda>q. id' (snd q) = fst q) memos"

text \<open>The id-to-record mapping after one more upsert, and the last record saved under an id.\<close>

definition upsert :: "Memo \<Rightarrow> (string \<rightharpoonup> Memo) \<Rightarrow> (string \<rightharpoonup> Memo)" where
  "upsert memo f = f(id' memo \<mapsto> memo)"

definition lastSaved :: "string \<Rightarrow> Memo list \<Rightarrow> Memo option" where
  "lastSaved i ms = find (\<lambda>memo. id' memo = i) (rev ms)"


section \<open>JavaScript values and the clock\<close>

text \<open>Truthiness, as \<open>||\<close>, \<open>!!\<close> and \<open>&&\<close> test it.\<close>

fun truthy :: "json \<Rightarrow> bool" where
  "truthy JNull = False"
| "truthy (JBool b) = b"
| "truthy (JNum n) = (n \<noteq> 0)"
| "truthy (JStr s) = (s \<noteq> [])"
| "truthy (JArr xs) = True"
| "truthy (JObj members) = True"

text \<open>
  \<open>m.f\<close>, with \<open>None\<close> for \<open>undefined\<close>. Of a repeated member \<open>JSON.parse\<close> keeps the
  last; a value that is not an object has none of the properties read here.
\<close>

definition getProp :: "json \<Rightarrow> string \<Rightarrow> json option" where
  "getProp m f = (case m of JObj members \<Rightarrow> map_of (rev members) f | _ \<Rightarrow> None)"

text \<open>\<open>typeof m.f === 'string'\<close> and \<open>typeof m.f === 'number'\<close>, with the value.\<close>

definition stringProp :: "json \<Rightarrow> string \<Rightarrow> string option" where
  "stringProp m f = (case getProp m f of Some (JStr s) \<Rightarrow> Some s | _ \<Rightarrow> None)"

definition numberProp :: "json \<Rightarrow> string \<Rightarrow> int option" where
  "numberProp m f = (case getProp m f of Some (JNum n) \<Rightarrow> Some n | _ \<Rightarrow> None)"

text \<open>
  The clock: the \<open>n\<close>-th reading of the current time returns \<open>readings n\<close>.
\<close>

record clock =
  readings :: "nat \<Rightarrow> int"
  calls :: nat

definition Date_now :: "clock \<Rightarrow> int \<times> clock" where
  "Date_now c = (readings c (calls c), c\<lparr>calls := Suc (calls c)\<rparr>)"

text \<open>\<open>String(n)\<close> for a count: its decimal digits.\<close>

fun String_nat :: "nat \<Rightarrow> string" where
  "String_nat n =
     (if n < 10 then [char_of (48 + n)]
      else String_nat (n div 10) @ [char_of (48 + n mod 10)])"

declare String_nat.simps [simp del]


section \<open>Export and import (the options page)\<close>

text \<open>
  \<open>JSON.stringify\<close> of a record, read back by \<open>JSON.parse\<close>: the two are taken to be
  inverse on the values of type \<open>json\<close>, so the file is modelled by the value it holds.
\<close>

definition memoJson :: "Memo \<Rightarrow> json" where
  "memoJson memo = JObj
     [(''id'', JStr (id' memo)),
      (''title'', title memo),
      (''content'', JStr (content memo)),
      (''domain'', JStr (domain memo)),
      (''url'', JStr (url memo)),
      (''isUrlSpecific'', JBool (isUrlSpecific memo)),
      (''createdAt'', JNum (createdAt memo)),
      (''updatedAt'', JNum (updatedAt memo))]"

text \<open>
  What the backend holds is JSON, and a record read back from it need not have the types
  of \<open>interface Memo\<close>: \<open>JSON.stringify\<close> writes a number that is not finite as \<open>null\<close>,
  for one. \<open>storedRecords\<close> is what the backend holds for a store of typed records.
  \<open>handleExport\<close> puts the records the backend holds (\<open>getAllMemos()\<close>) into the file
  (\<open>JSON.stringify(allMemos)\<close>).
\<close>

definition storedRecords :: "storage \<Rightarrow> (string \<times> json) list" where
  "storedRecords st = map (\<lambda>q. (fst q, memoJson (snd q))) (readMemos st)"

definition handleExport :: "(string \<times> json) list \<Rightarrow> json" where
  "handleExport stored = JArr (Object_values stored)"

text \<open>
  A record with fully-populated fields, in the words of the specification: \<open>id\<close>,
  \<open>title\<close>, \<open>content\<close>, \<open>domain\<close> and \<open>url\<close> are strings, \<open>isUrlSpecific\<close> is a boolean,
  \<open>createdAt\<close> and \<open>updatedAt\<close> are numbers. Two records are the same when they agree on
  these eight fields. \<open>asMemo\<close> is the record of type \<open>Memo\<close> that a fully-populated record is.
\<close>

definition boolProp :: "json \<Rightarrow> string \<Rightarrow> bool option" where
  "boolProp m f = (case getProp m f of Some (JBool b) \<Rightarrow> Some b | _ \<Rightarrow> None)"

definition fullyPopulated :: "json \<Rightarrow> bool" where
  "fullyPopulated j \<longleftrightarrow>
     stringProp j ''id'' \<noteq> None \<and> stringProp j ''title'' \<noteq> None
     \<and> stringProp j ''content'' \<noteq> None \<and> stringProp j ''domain'' \<noteq> None
     \<and> stringProp j ''url'' \<noteq> None \<and> boolProp j ''isUrlSpecific'' \<noteq> None
     \<and> numberProp j ''createdAt'' \<noteq> None \<and> numberProp j ''updatedAt'' \<noteq> None"

definition sameRecord :: "json \<Rightarrow> json \<Rightarrow> bool" where
  "sameRecord a b \<longleftrightarrow>
     list_all (\<lambda>f. getProp a f = getProp b f)
       [''id'', ''title'', ''content'', ''domain'', ''url'', ''isUrlSpecific'',
        ''createdAt'', ''updatedAt'']"

definition asMemo :: "json \<Rightarrow> Memo" where
  "asMemo j =
     \<lparr> id' = (case stringProp j ''id'' of Some s \<Rightarrow> s | None \<Rightarrow> []),
       title = (case getProp j ''title'' of Some t \<Rightarrow> t | None \<Rightarrow> JNull),
       content = (case stringProp j ''content'' of Some s \<Rightarrow> s | None \<Rightarrow> []),
       domain = (case stringProp j ''domain'' of Some s \<Rightarrow> s | None \<Rightarrow> []),
       url = (case stringProp j ''url'' of Some s \<Rightarrow> s | None \<Rightarrow> []),
       isUrlSpecific = (case boolProp j ''isUrlSpecific'' of Some b \<Rightarrow> b | None \<Rightarrow> False),
       createdAt = (case numberProp j ''createdAt'' of Some n \<Rightarrow> n | None \<Rightarrow> 0),
       updatedAt = (case numberProp j ''updatedAt'' of Some n \<Rightarrow> n | None \<Rightarrow> 0) \<rparr>"

text \<open>
  \<open>typeof m.f === 'number' ? m.f : Date.now()\<close>, then the test and the
  \<open>sanitizedMemo\<close> of the import loop. \<open>None\<close>: the element is skipped.
\<close>

definition numberOrNow :: "json \<Rightarrow> string \<Rightarrow> clock \<Rightarrow> int \<times> clock" where
  "numberOrNow m f c = (case numberProp m f of Some n \<Rightarrow> (n, c) | None \<Rightarrow> Date_now c)"

definition sanitizedMemo :: "json \<Rightarrow> clock \<Rightarrow> (Memo \<times> clock) option" where
  "sanitizedMemo m c =
     (if \<not> truthy m then None
      else case stringProp m ''id'' of None \<Rightarrow> None | Some i \<Rightarrow>
           case stringProp m ''domain'' of None \<Rightarrow> None | Some d \<Rightarrow>
           case stringProp m ''content'' of None \<Rightarrow> None | Some ct \<Rightarrow>
             let (ca, c1) = numberOrNow m ''createdAt'' c;
                 (ua, c2) = numberOrNow m ''updatedAt'' c1
             in Some (\<lparr> id' = i,
                        title = (case getProp m ''title'' of
                                   Some t \<Rightarrow> if truthy t then t else JStr ''Untitled''
                                 | None \<Rightarrow> JStr ''Untitled''),
                        content = ct,
                        domain = d,
                        url = (case stringProp m ''url'' of Some u \<Rightarrow> u | None \<Rightarrow> []),
                        isUrlSpecific = (case getProp m ''isUrlSpecific'' of
                                           Some b \<Rightarrow> truthy b | None \<Rightarrow> False),
                        createdAt = ca,
                        updatedAt = ua \<rparr>, c2))"

text \<open>The elements the import accepts: \<open>id\<close>, \<open>domain\<close> and \<open>content\<close> are strings.\<close>

definition importable :: "json \<Rightarrow> bool" where
  "importable m \<longleftrightarrow> truthy m \<and> stringProp m ''id'' \<noteq> None \<and> stringProp m ''domain'' \<noteq> None
      \<and> stringProp m ''content'' \<noteq> None"

text \<open>One turn of \<open>for (const m of json)\<close>, on the count, the store and the clock.\<close>

definition importElement :: "json \<Rightarrow> nat \<times> storage \<times> clock \<Rightarrow> nat \<times> storage \<times> clock" where
  "importElement m acc =
     (case acc of (cnt, st, c) \<Rightarrow>
        (case sanitizedMemo m c of
           Some (memo, c') \<Rightarrow> (cnt + 1, saveMemo memo st, c')
         | None \<Rightarrow> (cnt, st, c)))"

datatype notice = Status string | Alert string

text \<open>
  \<open>reader.onload\<close> of \<open>handleImportFile\<close>. The argument is what \<open>JSON.parse\<close> made of the
  file, \<open>None\<close> when it threw. The result is the store, the clock and what the page shows.
\<close>

definition handleImportFile :: "json option \<Rightarrow> storage \<Rightarrow> clock \<Rightarrow> storage \<times> clock \<times> notice option" where
  "handleImportFile parsed st c =
     (case parsed of
        None \<Rightarrow> (st, c, Some (Alert ''Invalid JSON file''))
      | Some (JArr elems) \<Rightarrow>
          (case fold importElement elems (0, st, c) of
             (cnt, st', c') \<Rightarrow>
               (st', c', Some (Status (''Imported '' @ String_nat cnt @ '' notes successfully!''))))
      | Some _ \<Rightarrow> (st, c, None))"


section \<open>Badge and context menu (the background worker)\<close>

text \<open>
  What the worker writes: the badge text and badge colour of each tab, and the context
  menu (\<open>None\<close> when \<open>chrome.contextMenus\<close> is not there), from item id to title.
\<close>

record chromeUi =
  badgeText :: "int \<rightharpoonup> string"
  badgeColor :: "int \<rightharpoonup> string"
  contextMenus :: "(string \<rightharpoonup> string) option"

text \<open>
  \<open>chrome.contextMenus.update\<close> of an item that does not exist sets
  \<open>chrome.runtime.lastError\<close>, which the callback ignores.
\<close>

definition updateBadgeAndMenu :: "int \<Rightarrow> string \<Rightarrow> storage \<Rightarrow> chromeUi \<Rightarrow> chromeUi" where
  "updateBadgeAndMenu tabId u st ui =
     (if u = [] then ui
      else
        let memoList = Object_values (readMemos st);
            matchCount = length (filter (\<lambda>m. url m = u) memoList);
            ui1 = (if matchCount > 0
                   then ui\<lparr> badgeText := (badgeText ui)(tabId \<mapsto> String_nat matchCount),
                            badgeColor := (badgeColor ui)(tabId \<mapsto> ''#22c55e'') \<rparr>
                   else ui\<lparr> badgeText := (badgeText ui)(tabId \<mapsto> []) \<rparr>);
            menuTitle = (if matchCount > 0 then ''Open Note for this Page''
                         else ''Create Note for this Page'')
        in case contextMenus ui1 of
             None \<Rightarrow> ui1
           | Some items \<Rightarrow>
               (case items ''domain-memo-action'' of
                  None \<Rightarrow> ui1
                | Some old \<Rightarrow> ui1\<lparr> contextMenus := Some (items(''domain-memo-action'' \<mapsto> menuTitle)) \<rparr>))"


section \<open>The note list of the panel (hooks/useMemos.ts)\<close>

datatype viewMode = DomainView | AllView

text \<open>The state of the hook: \<open>memos\<close>, \<open>activeMemoId\<close> and \<open>saveTimeoutRef.current\<close>.\<close>

record hook =
  memos :: "Memo list"
  activeMemoId :: "string option"
  saveTimeoutRef :: "nat option"

text \<open>\<open>!x\<close> for a \<open>string | null\<close>: \<open>null\<close> and the empty string are falsy.\<close>

definition falsy :: "string option \<Rightarrow> bool" where
  "falsy x = (case x of None \<Rightarrow> True | Some s \<Rightarrow> s = [])"

text \<open>The list \<open>loaded\<close> of \<open>fetchMemos\<close> and \<open>loadMemos\<close>.\<close>

definition loaded :: "viewMode \<Rightarrow> string option \<Rightarrow> storage \<Rightarrow> Memo list" where
  "loaded vm d st =
     (if vm = AllView then Array_sort byUpdatedAtDesc (getAllMemos st)
      else case d of
             None \<Rightarrow> []
           | Some dm \<Rightarrow> if dm = [] then [] else getMemosByDomain dm st)"

text \<open>What \<open>loadMemos\<close> does with the list, and \<open>fetchMemos\<close> while \<open>isMounted\<close>.\<close>

definition showLoaded :: "Memo list \<Rightarrow> hook \<Rightarrow> hook" where
  "showLoaded l h =
     (let h1 = h\<lparr> memos := l \<rparr>
      in if length l > 0 \<and> falsy (activeMemoId h) then h1\<lparr> activeMemoId := Some (id' (hd l)) \<rparr>
         else h1)"

definition loadMemos :: "viewMode \<Rightarrow> string option \<Rightarrow> storage \<Rightarrow> hook \<Rightarrow> hook" where
  "loadMemos vm d st h = showLoaded (loaded vm d st) h"

definition fetchMemos :: "bool \<Rightarrow> viewMode \<Rightarrow> string option \<Rightarrow> storage \<Rightarrow> hook \<Rightarrow> hook" where
  "fetchMemos isMounted vm d st h = (if isMounted then showLoaded (loaded vm d st) h else h)"

text \<open>\<open>memos.find((m) => m.id === activeMemoId) || null\<close>.\<close>

definition activeMemo :: "hook \<Rightarrow> Memo option" where
  "activeMemo h =
     (case activeMemoId h of None \<Rightarrow> None | Some i \<Rightarrow> find (\<lambda>m. id' m = i) (memos h))"

text \<open>
  \<open>createMemo\<close>, with the record \<open>newMemo\<close> it builds once \<open>domain\<close> and \<open>url\<close> are
  known to be truthy (\<open>if (!domain || !url) return\<close>). The arguments after the hook's own (\<open>domain\<close>, \<open>url\<close>, \<open>title\<close>,
  \<open>viewMode\<close>) are what the environment supplies: the result of \<open>uuidv4()\<close> and the
  local-time formatting of \<open>new Date()\<close>. The clock is read three times, by \<open>new Date()\<close>
  and by the two \<open>Date.now()\<close> of the record.
\<close>

definition newMemo ::
  "string \<Rightarrow> string \<Rightarrow> string option \<Rightarrow> string \<Rightarrow> (int \<Rightarrow> string) \<Rightarrow> clock \<Rightarrow> Memo \<times> clock" where
  "newMemo d u t uuid formatDate c =
     (let (t0, c0) = Date_now c;
          formattedDate = formatDate t0;
          frontmatter = ''---'' @ [CHR 0x0A]
            @ ''URL: '' @ u @ [CHR 0x0A]
            @ ''title: '' @ (case t of None \<Rightarrow> [] | Some s \<Rightarrow> s) @ [CHR 0x0A]
            @ ''created_at: '' @ formattedDate @ [CHR 0x0A]
            @ ''---'' @ [CHR 0x0A] @ [CHR 0x0A];
          displayTitle = (case t of
                            None \<Rightarrow> ''New Note''
                          | Some s \<Rightarrow> if s = [] then ''New Note'' else ''Note: '' @ s);
          (t1, c1) = Date_now c0;
          (t2, c2) = Date_now c1
      in (\<lparr> id' = uuid,
            title = JStr displayTitle,
            content = frontmatter,
            domain = d,
            url = u,
            isUrlSpecific = False,
            createdAt = t1,
            updatedAt = t2 \<rparr>, c2))"

definition createMemo ::
  "string option \<Rightarrow> string option \<Rightarrow> string option \<Rightarrow> viewMode \<Rightarrow> string \<Rightarrow> (int \<Rightarrow> string)
     \<Rightarrow> clock \<Rightarrow> storage \<Rightarrow> hook \<Rightarrow> storage \<times> clock \<times> hook" where
  "createMemo d u t vm uuid formatDate c st h =
     (case d of
        None \<Rightarrow> (st, c, h)
      | Some dm \<Rightarrow>
          (case u of
             None \<Rightarrow> (st, c, h)
           | Some ur \<Rightarrow>
               if dm = [] \<or> ur = [] then (st, c, h)
               else
                 let (memo, c') = newMemo dm ur t uuid formatDate c;
                     st' = saveMemo memo st;
                     h' = loadMemos vm d st' h
                 in (st', c', h'\<lparr> activeMemoId := Some (id' memo) \<rparr>)))"


section \<open>Autosave: the debounce timer of \<open>updateMemo\<close>\<close>

text \<open>
  The part of the event loop the hook uses. A pending timer is its handle, the time at
  which it is due and the record its callback \<open>async () => { await saveMemo(updatedMemo) }\<close>
  saves. Time is a count of milliseconds; a timer runs exactly when it is due, and a timer
  due at the moment of an edit runs before the edit. \<open>saveLog\<close> records when the
  callbacks called \<open>saveMemo\<close>, and with what.
\<close>

type_synonym timer = "nat \<times> nat \<times> Memo"

record runtime =
  hookState :: hook
  store :: storage
  timers :: "timer list"
  nextHandle :: nat
  now :: nat
  saveLog :: "(nat \<times> Memo) list"

definition setTimeout :: "Memo \<Rightarrow> nat \<Rightarrow> runtime \<Rightarrow> nat \<times> runtime" where
  "setTimeout m delay r =
     (nextHandle r,
      r\<lparr> timers := timers r @ [(nextHandle r, now r + delay, m)],
         nextHandle := Suc (nextHandle r) \<rparr>)"

definition clearTimeout :: "nat \<Rightarrow> runtime \<Rightarrow> runtime" where
  "clearTimeout handle r = r\<lparr> timers := filter (\<lambda>x. fst x \<noteq> handle) (timers r) \<rparr>"

text \<open>\<open>updateMemo\<close>: the optimistic update of the list, then the debounce.\<close>

definition updateMemo :: "Memo \<Rightarrow> runtime \<Rightarrow> runtime" where
  "updateMemo updatedMemo r =
     (let h = hookState r;
          r1 = r\<lparr> hookState :=
                    h\<lparr> memos := map (\<lambda>m. if id' m = id' updatedMemo then updatedMemo else m) (memos h) \<rparr> \<rparr>;
          r2 = (case saveTimeoutRef h of
                  None \<Rightarrow> r1
                | Some handle \<Rightarrow> if handle \<noteq> 0 then clearTimeout handle r1 else r1);
          (handle', r3) = setTimeout updatedMemo 1000 r2
      in r3\<lparr> hookState := (hookState r3)\<lparr> saveTimeoutRef := Some handle' \<rparr> \<rparr>)"

text \<open>A timer runs: it leaves the table and its callback saves its record.\<close>

definition runTimer :: "timer \<Rightarrow> runtime \<Rightarrow> runtime" where
  "runTimer x r =
     (case x of (handle, due, m) \<Rightarrow>
        r\<lparr> timers := filter (\<lambda>y. fst y \<noteq> handle) (timers r),
           now := max (now r) due,
           store := saveMemo m (store r),
           saveLog := saveLog r @ [(max (now r) due, m)] \<rparr>)"

text \<open>
  Time passes until \<open>t\<close>: the timers due by then run in the order in which they are due
  (no callback here sets a timer).
\<close>

definition advanceTo :: "nat \<Rightarrow> runtime \<Rightarrow> runtime" where
  "advanceTo t r =
     (let r' = fold runTimer (sort_key (\<lambda>x. fst (snd x)) (filter (\<lambda>x. fst (snd x) \<le> t) (timers r))) r
      in r'\<lparr> now := max (now r') t \<rparr>)"

text \<open>A sequence of edits: \<open>updateMemo\<close> is called with \<open>m\<close> at time \<open>t\<close>, for each \<open>(t, m)\<close>.\<close>

fun edits :: "(nat \<times> Memo) list \<Rightarrow> runtime \<Rightarrow> runtime" where
  "edits [] r = r"
| "edits ((t, m) # es) r = edits es (updateMemo m (advanceTo t r))"

text \<open>The hook as \<open>useState\<close> and \<open>useRef\<close> initialise it, over a given store.\<close>

definition initialRuntime :: "storage \<Rightarrow> runtime" where
  "initialRuntime st =
     \<lparr> hookState = \<lparr> memos = [], activeMemoId = None, saveTimeoutRef = None \<rparr>,
       store = st, timers = [], nextHandle = 1, now = 0, saveLog = [] \<rparr>"

text \<open>
  The saves the specification expects of a sequence of edits, observed until \<open>T\<close>: an
  edit at \<open>t\<close> is saved at \<open>t + 1000\<close> when no later edit comes before that.
\<close>

fun expectedSaves :: "(nat \<times> Memo) list \<Rightarrow> nat \<Rightarrow> (nat \<times> Memo) list" where
  "expectedSaves [] T = []"
| "expectedSaves [(t, m)] T = (if t + 1000 \<le> T then [(t + 1000, m)] else [])"
| "expectedSaves ((t, m) # (t', m') # es) T =
     (if t + 1000 \<le> t' then [(t + 1000, m)] else []) @ expectedSaves ((t', m') # es) T"

text \<open>
  The invariant of the debounce: at most one timer is pending, and it is the one whose
  handle \<open>saveTimeoutRef\<close> holds. Handles are positive.
\<close>

definition debounced :: "runtime \<Rightarrow> bool" where
  "debounced r \<longleftrightarrow>
     0 < nextHandle r
     \<and> (case timers r of
          [] \<Rightarrow> True
        | [x] \<Rightarrow> saveTimeoutRef (hookState r) = Some (fst x) \<and> fst x \<noteq> 0
        | _ \<Rightarrow> False)"

text \<open>
  \<open>handleTitleChange\<close> and \<open>handleContentChange\<close> of \<open>App.tsx\<close>; \<open>nowMs\<close> is the reading
  of \<open>Date.now()\<close>.
\<close>

definition handleTitleChange :: "string \<Rightarrow> int \<Rightarrow> runtime \<Rightarrow> runtime" where
  "handleTitleChange v nowMs r =
     (case activeMemo (hookState r) of
        None \<Rightarrow> r
      | Some a \<Rightarrow> updateMemo (a\<lparr> title := JStr v, updatedAt := nowMs \<rparr>) r)"

definition handleContentChange :: "string \<Rightarrow> int \<Rightarrow> runtime \<Rightarrow> runtime" where
  "handleContentChange v nowMs r =
     (case activeMemo (hookState r) of
        None \<Rightarrow> r
      | Some a \<Rightarrow> updateMemo (a\<lparr> content := v, updatedAt := nowMs \<rparr>) r)"


section \<open>Records and inputs used in the examples\<close>

definition memoOf :: "string \<Rightarrow> string \<Rightarrow> string \<Rightarrow> string \<Rightarrow> int \<Rightarrow> Memo" where
  "memoOf i ttl d u t =
     \<lparr> id' = i, title = JStr ttl, content = ''text'', domain = d, url = u,
       isUrlSpecific = False, createdAt = t, updatedAt = t \<rparr>"

definition clockFrom :: "int \<Rightarrow> clock" where
  "clockFrom t = \<lparr> readings = (\<lambda>n. t + int n), calls = 0 \<rparr>"


section \<open>Sorting\<close>

lemma insertBy_insort_key:
  "insertBy byUpdatedAtDesc x ys = insort_key (\<lambda>m. - updatedAt m) x ys"
  by (induction ys) (simp_all add: byUpdatedAtDesc_def)

lemma Array_sort_sort_key:
  "Array_sort byUpdatedAtDesc xs = sort_key (\<lambda>m. - updatedAt m) xs"
proof -
  have "insertBy byUpdatedAtDesc = insort_key (\<lambda>m. - updatedAt m)"
    by (intro ext) (rule insertBy_insort_key)
  then show ?thesis
    by (simp add: Array_sort_def sort_key_def)
qed

lemma Array_sort_mset: "mset (Array_sort byUpdatedAtDesc xs) = mset xs"
  by (simp add: Array_sort_sort_key)

lemma Array_sort_descending:
  "sorted_wrt (\<lambda>a b. updatedAt b \<le> updatedAt a) (Array_sort byUpdatedAtDesc xs)"
proof -
  have "sorted (map (\<lambda>m. - updatedAt m) (Array_sort byUpdatedAtDesc xs))"
    by (simp add: Array_sort_sort_key)
  then show ?thesis
    by (simp add: sorted_wrt_map)
qed

lemma Array_sort_stable:
  "filter (\<lambda>m. updatedAt m = t) (Array_sort byUpdatedAtDesc xs) = filter (\<lambda>m. updatedAt m = t) xs"
proof -
  have "filter (\<lambda>m. - updatedAt m = - t) (sort_key (\<lambda>m. - updatedAt m) xs)
        = filter (\<lambda>m. - updatedAt m = - t) xs"
    by (rule sort_key_stable)
  then show ?thesis
    by (simp add: Array_sort_sort_key)
qed


section \<open>Queries by domain\<close>

text \<open>
  C1. For every store, \<open>getMemosByDomain d\<close> returns exactly the records of the store whose
  \<open>domain\<close> equals \<open>d\<close> (each as many times as the store holds it, and no other), in
  descending order of \<open>updatedAt\<close>; records with the same \<open>updatedAt\<close> keep the order in
  which the store enumerates them, so the result is determined (stable sort). With no
  store yet written the result is empty.
\<close>

theorem getMemosByDomain_exact_sorted_stable:
  "getMemosByDomain d None = []
   \<and> mset (getMemosByDomain d (Some s)) = mset (filter (\<lambda>memo. domain memo = d) (map snd s))
   \<and> sorted_wrt (\<lambda>a b. updatedAt b \<le> updatedAt a) (getMemosByDomain d (Some s))
   \<and> filter (\<lambda>memo. updatedAt memo = t) (getMemosByDomain d (Some s))
       = filter (\<lambda>memo. updatedAt memo = t) (filter (\<lambda>memo. domain memo = d) (map snd s))"
proof (intro conjI)
  show "getMemosByDomain d None = []"
    by (simp add: getMemosByDomain_def readMemos_def Object_values_def Array_sort_def)
  have g: "getMemosByDomain d (Some s)
      = Array_sort byUpdatedAtDesc (filter (\<lambda>memo. domain memo = d) (map snd s))"
    by (simp add: getMemosByDomain_def readMemos_def Object_values_def)
  show "mset (getMemosByDomain d (Some s)) = mset (filter (\<lambda>memo. domain memo = d) (map snd s))"
    unfolding g by (rule Array_sort_mset)
  show "sorted_wrt (\<lambda>a b. updatedAt b \<le> updatedAt a) (getMemosByDomain d (Some s))"
    unfolding g by (rule Array_sort_descending)
  show "filter (\<lambda>memo. updatedAt memo = t) (getMemosByDomain d (Some s))
       = filter (\<lambda>memo. updatedAt memo = t) (filter (\<lambda>memo. domain memo = d) (map snd s))"
    unfolding g by (rule Array_sort_stable)
qed

text \<open>
  A store of five records, enumerated in the order shown (the key \<open>9\<close> is an array index
  and comes first). Three have the domain \<open>a.com\<close>; \<open>A.com\<close> is another domain. The two
  records updated at 7 come out in the order of the store.
\<close>

theorem getMemosByDomain_exact_sorted_stable_witness:
  "getMemosByDomain ''a.com''
     (Some [(''9'', memoOf ''9'' ''Nine'' ''a.com'' ''https://a.com/9'' 7),
            (''b'', memoOf ''b'' ''B'' ''b.org'' ''https://b.org/'' 8),
            (''c'', memoOf ''c'' ''C'' ''a.com'' ''https://a.com/c'' 9),
            (''d'', memoOf ''d'' ''D'' ''a.com'' ''https://a.com/d'' 7),
            (''e'', memoOf ''e'' ''E'' ''A.com'' ''https://A.com/e'' 9)])
   = [memoOf ''c'' ''C'' ''a.com'' ''https://a.com/c'' 9,
      memoOf ''9'' ''Nine'' ''a.com'' ''https://a.com/9'' 7,
      memoOf ''d'' ''D'' ''a.com'' ''https://a.com/d'' 7]
   \<and> mset (getMemosByDomain ''a.com''
     (Some [(''9'', memoOf ''9'' ''Nine'' ''a.com'' ''https://a.com/9'' 7),
            (''b'', memoOf ''b'' ''B'' ''b.org'' ''https://b.org/'' 8),
            (''c'', memoOf ''c'' ''C'' ''a.com'' ''https://a.com/c'' 9),
            (''d'', memoOf ''d'' ''D'' ''a.com'' ''https://a.com/d'' 7),
            (''e'', memoOf ''e'' ''E'' ''A.com'' ''https://A.com/e'' 9)]))
     = {#memoOf ''9'' ''Nine'' ''a.com'' ''https://a.com/9'' 7,
         memoOf ''c'' ''C'' ''a.com'' ''https://a.com/c'' 9,
         memoOf ''d'' ''D'' ''a.com'' ''https://a.com/d'' 7#}
   \<and> filter (\<lambda>memo. updatedAt memo = 7) (getMemosByDomain ''a.com''
     (Some [(''9'', memoOf ''9'' ''Nine'' ''a.com'' ''https://a.com/9'' 7),
            (''b'', memoOf ''b'' ''B'' ''b.org'' ''https://b.org/'' 8),
            (''c'', memoOf ''c'' ''C'' ''a.com'' ''https://a.com/c'' 9),
            (''d'', memoOf ''d'' ''D'' ''a.com'' ''https://a.com/d'' 7),
            (''e'', memoOf ''e'' ''E'' ''A.com'' ''https://A.com/e'' 9)]))
     = [memoOf ''9'' ''Nine'' ''a.com'' ''https://a.com/9'' 7,
        memoOf ''d'' ''D'' ''a.com'' ''https://a.com/d'' 7]"
proof -
  let ?s = "[(''9'', memoOf ''9'' ''Nine'' ''a.com'' ''https://a.com/9'' 7),
            (''b'', memoOf ''b'' ''B'' ''b.org'' ''https://b.org/'' 8),
            (''c'', memoOf ''c'' ''C'' ''a.com'' ''https://a.com/c'' 9),
            (''d'', memoOf ''d'' ''D'' ''a.com'' ''https://a.com/d'' 7),
            (''e'', memoOf ''e'' ''E'' ''A.com'' ''https://A.com/e'' 9)]"
  have e: "getMemosByDomain ''a.com'' (Some ?s)
      = [memoOf ''c'' ''C'' ''a.com'' ''https://a.com/c'' 9,
         memoOf ''9'' ''Nine'' ''a.com'' ''https://a.com/9'' 7,
         memoOf ''d'' ''D'' ''a.com'' ''https://a.com/d'' 7]"
    by (simp add: getMemosByDomain_def readMemos_def Object_values_def Array_sort_def
        byUpdatedAtDesc_def memoOf_def)
  note r = getMemosByDomain_exact_sorted_stable [where d = "''a.com''" and s = ?s and t = 7]
  have m: "mset (getMemosByDomain ''a.com'' (Some ?s))
      = {#memoOf ''9'' ''Nine'' ''a.com'' ''https://a.com/9'' 7,
          memoOf ''c'' ''C'' ''a.com'' ''https://a.com/c'' 9,
          memoOf ''d'' ''D'' ''a.com'' ''https://a.com/d'' 7#}"
    unfolding r [THEN conjunct2, THEN conjunct1] by (simp add: memoOf_def)
  have f: "filter (\<lambda>memo. updatedAt memo = 7) (getMemosByDomain ''a.com'' (Some ?s))
      = [memoOf ''9'' ''Nine'' ''a.com'' ''https://a.com/9'' 7,
         memoOf ''d'' ''D'' ''a.com'' ''https://a.com/d'' 7]"
    unfolding r [THEN conjunct2, THEN conjunct2, THEN conjunct2] by (simp add: memoOf_def)
  from e m f show ?thesis
    by (simp only: simp_thms)
qed


section \<open>The store as a mapping from id to record\<close>


lemma map_of_replace:
  "map_of (map (\<lambda>q. if fst q = k then (k, v) else q) obj)
     = (if k \<in> fst ` set obj then (map_of obj)(k \<mapsto> v) else map_of obj)"
  by (induction obj) (auto simp: fun_upd_twist)

lemma map_of_insertIndexKey:
  "k \<notin> fst ` set obj \<Longrightarrow> map_of (insertIndexKey n (k, v) obj) = (map_of obj)(k \<mapsto> v)"
proof (induction obj)
  case Nil
  then show ?case by simp
next
  case (Cons q qs)
  then have "fst q \<noteq> k" by auto
  with Cons show ?case
    by (cases q) (auto split: option.splits simp: fun_upd_twist)
qed

lemma map_of_snoc:
  "k \<notin> fst ` set obj \<Longrightarrow> map_of (obj @ [(k, v)]) = (map_of obj)(k \<mapsto> v)"
  by (induction obj) (auto simp: fun_upd_twist)

lemma map_of_setProperty:
  "map_of (setProperty k v obj)
     = (if k \<in> fst ` set obj \<or> k \<noteq> ''__proto__'' then (map_of obj)(k \<mapsto> v) else map_of obj)"
proof (cases "k \<in> fst ` set obj")
  case True
  then show ?thesis
    by (simp add: setProperty_def map_of_replace)
next
  case False
  then show ?thesis
    by (cases "arrayIndex k") (simp_all add: setProperty_def map_of_insertIndexKey map_of_snoc del: map_of_append)
qed

lemma keys_replace: "map (fst \<circ> (\<lambda>q. if fst q = k then (k, v) else q)) obj = map fst obj"
  by (induction obj) auto

lemma set_insertIndexKey: "set (insertIndexKey n p obj) = insert p (set obj)"
  by (induction obj) (auto split: option.splits)

lemma distinct_insertIndexKey:
  "fst p \<notin> fst ` set obj \<Longrightarrow> distinct (map fst obj) \<Longrightarrow> distinct (map fst (insertIndexKey n p obj))"
proof (induction obj)
  case Nil
  then show ?case by simp
next
  case (Cons q qs)
  then show ?case
    by (auto split: option.splits simp: set_insertIndexKey)
qed

lemma distinct_setProperty:
  assumes "distinct (map fst obj)"
  shows "distinct (map fst (setProperty k v obj))"
proof (cases "k \<in> fst ` set obj")
  case True
  then show ?thesis
    using assms by (simp add: setProperty_def keys_replace)
next
  case False
  then show ?thesis
    using assms by (cases "arrayIndex k") (simp_all add: setProperty_def distinct_insertIndexKey)
qed

lemma set_setProperty: "set (setProperty k v obj) \<subseteq> insert (k, v) (set obj)"
  unfolding setProperty_def
  by (auto simp: set_insertIndexKey split: option.splits if_splits)

lemma keyedById_setProperty:
  assumes "keyedById s"
  shows "keyedById (setProperty (id' memo) memo s)"
proof -
  have "\<forall>q \<in> set (setProperty (id' memo) memo s). id' (snd q) = fst q"
    using assms set_setProperty [of "id' memo" memo s]
    by (auto simp: keyedById_def list_all_iff)
  with assms show ?thesis
    by (simp add: keyedById_def distinct_setProperty list_all_iff)
qed

lemma keyedById_deleteProperty: "keyedById s \<Longrightarrow> keyedById (deleteProperty i s)"
  by (auto simp: keyedById_def deleteProperty_def list_all_iff distinct_map_filter)

lemma keyedById_ids: "keyedById s \<Longrightarrow> map id' (Object_values s) = map fst s"
  by (simp add: keyedById_def Object_values_def list_all_iff)


lemma readMemos_None: "readMemos None = []"
  by (simp add: readMemos_def)

lemma values_deleteProperty:
  "keyedById s
   \<Longrightarrow> Object_values (deleteProperty i s) = filter (\<lambda>memo. id' memo \<noteq> i) (Object_values s)"
  by (induction s) (auto simp: keyedById_def deleteProperty_def Object_values_def)

lemma readMemos_saveMemo: "readMemos (saveMemo memo st) = setProperty (id' memo) memo (readMemos st)"
  by (simp add: saveMemo_def readMemos_def)

lemma readMemos_deleteMemo: "readMemos (deleteMemo i st) = deleteProperty i (readMemos st)"
  by (simp add: deleteMemo_def readMemos_def)

lemma keyedById_saveMemo: "keyedById (readMemos st) \<Longrightarrow> keyedById (readMemos (saveMemo memo st))"
  by (simp add: readMemos_saveMemo keyedById_setProperty)

lemma no_proto_key_setProperty:
  assumes "''__proto__'' \<notin> fst ` set obj"
  shows "''__proto__'' \<notin> fst ` set (setProperty k v obj)"
proof (cases "k = ''__proto__''")
  case True
  with assms show ?thesis
    by (simp add: setProperty_def)
next
  case False
  then show ?thesis
    using assms set_setProperty [of k v obj] by force
qed

lemma no_proto_key_saveMemo:
  "''__proto__'' \<notin> fst ` set (readMemos st)
   \<Longrightarrow> ''__proto__'' \<notin> fst ` set (readMemos (saveMemo memo st))"
  by (simp add: readMemos_saveMemo no_proto_key_setProperty)

lemma no_proto_key_deleteMemo:
  "''__proto__'' \<notin> fst ` set (readMemos st)
   \<Longrightarrow> ''__proto__'' \<notin> fst ` set (readMemos (deleteMemo i st))"
  by (auto simp: readMemos_deleteMemo deleteProperty_def)

lemma keyedById_fold_saveMemo:
  "keyedById (readMemos st) \<Longrightarrow> keyedById (readMemos (fold saveMemo ms st))"
  by (induction ms arbitrary: st) (simp_all add: keyedById_saveMemo)

lemma map_of_saveMemo:
  "id' memo \<noteq> ''__proto__''
   \<Longrightarrow> map_of (readMemos (saveMemo memo st)) = (map_of (readMemos st))(id' memo \<mapsto> memo)"
  by (simp add: readMemos_saveMemo map_of_setProperty)

lemma find_app:
  "find P (xs @ ys) = (case find P xs of None \<Rightarrow> find P ys | Some x \<Rightarrow> Some x)"
  by (induction xs) simp_all

lemma lastSaved_Cons:
  "lastSaved i (m # ms) = (case lastSaved i ms of Some x \<Rightarrow> Some x | None \<Rightarrow> if id' m = i then Some m else None)"
  by (simp add: lastSaved_def find_app split: option.splits)

lemma fold_upsert:
  "fold upsert ms f k
     = (case lastSaved k ms of Some x \<Rightarrow> Some x | None \<Rightarrow> f k)"
proof (induction ms arbitrary: f)
  case Nil
  then show ?case by (simp add: lastSaved_def)
next
  case (Cons m ms)
  have "fold upsert (m # ms) f k = fold upsert ms (upsert m f) k"
    by simp
  also have "\<dots> = (case lastSaved k ms of Some x \<Rightarrow> Some x | None \<Rightarrow> upsert m f k)"
    by (rule Cons.IH)
  also have "\<dots> = (case lastSaved k (m # ms) of Some x \<Rightarrow> Some x | None \<Rightarrow> f k)"
    by (cases "lastSaved k ms") (auto simp: lastSaved_Cons upsert_def)
  finally show ?case .
qed

lemma map_of_fold_saveMemo:
  "''__proto__'' \<notin> id' ` set ms
   \<Longrightarrow> map_of (readMemos (fold saveMemo ms st)) = fold upsert ms (map_of (readMemos st))"
proof (induction ms arbitrary: st)
  case Nil
  then show ?case by simp
next
  case (Cons m ms)
  then have "id' m \<noteq> ''__proto__''" and "''__proto__'' \<notin> id' ` set ms"
    by auto
  then show ?case
    by (simp add: Cons.IH map_of_saveMemo upsert_def [symmetric])
qed

lemma lastSaved_None: "lastSaved k ms = None \<longleftrightarrow> k \<notin> id' ` set ms"
  by (auto simp: lastSaved_def find_None_iff)

lemma saveMemo_sequence_upsert:
  assumes "''__proto__'' \<notin> id' ` set ms"
  shows "distinct (map id' (getAllMemos (fold saveMemo ms None)))"
    and "set (map id' (getAllMemos (fold saveMemo ms None))) = id' ` set ms"
    and "\<forall>memo \<in> set (getAllMemos (fold saveMemo ms None)). lastSaved (id' memo) ms = Some memo"
proof -
  let ?s = "readMemos (fold saveMemo ms None)"
  have k: "keyedById ?s"
    by (rule keyedById_fold_saveMemo) (simp add: keyedById_def readMemos_None)
  have m: "map_of ?s k = lastSaved k ms" for k
    using assms by (simp add: map_of_fold_saveMemo fold_upsert readMemos_None split: option.splits)
  have ids: "map id' (getAllMemos (fold saveMemo ms None)) = map fst ?s"
    using k by (simp add: getAllMemos_def keyedById_ids)
  show "distinct (map id' (getAllMemos (fold saveMemo ms None)))"
    using k by (simp add: ids keyedById_def)
  have "fst ` set ?s = dom (map_of ?s)"
    by (simp add: dom_map_of_conv_image_fst)
  also have "\<dots> = id' ` set ms"
    using lastSaved_None [of _ ms] by (auto simp: dom_def m)
  finally show "set (map id' (getAllMemos (fold saveMemo ms None))) = id' ` set ms"
    by (simp add: ids)
  show "\<forall>memo \<in> set (getAllMemos (fold saveMemo ms None)). lastSaved (id' memo) ms = Some memo"
  proof
    fix memo assume "memo \<in> set (getAllMemos (fold saveMemo ms None))"
    then obtain q where q: "q \<in> set ?s" "snd q = memo"
      by (auto simp: getAllMemos_def Object_values_def)
    with k have "(id' memo, memo) \<in> set ?s"
      by (cases q) (auto simp: keyedById_def list_all_iff)
    with k have "map_of ?s (id' memo) = Some memo"
      by (simp add: keyedById_def)
    then show "lastSaved (id' memo) ms = Some memo"
      by (simp add: m)
  qed
qed


lemmas store_eval = getAllMemos_def saveMemo_def deleteMemo_def readMemos_def setProperty_def
  deleteProperty_def Object_values_def memoOf_def arrayIndex_def isDigit_def decimalValue_def


section \<open>Saving\<close>

text \<open>
  C2. Saving is an upsert by id for every id but one. A record whose id is \<open>__proto__\<close>,
  saved into the empty store, is not stored: \<open>memos[memo.id] = memo\<close> then runs the
  \<open>__proto__\<close> setter of \<open>Object.prototype\<close> and creates no property, so
  \<open>getAllMemos\<close> afterward returns no record for an id that was saved. (For sequences of
  saves without that id, \<open>saveMemo_sequence_upsert\<close> above gives one record per id, the
  last one saved.)
\<close>

theorem saveMemo_proto_id_not_stored:
  "getAllMemos (saveMemo (memoOf ''__proto__'' ''T'' ''example.com'' ''https://example.com/'' 5) None) = []"
  by (simp add: store_eval)


section \<open>Deleting\<close>

text \<open>
  C5. After \<open>deleteMemo i\<close> the store has no property \<open>i\<close>. On a store keyed by id,
  \<open>getAllMemos\<close> then returns the records it returned before except the one with id
  \<open>i\<close>, so none with that id. When the store has no property \<open>i\<close> its contents stay
  as they are; \<open>deleteMemo\<close> is total: there is no error.
\<close>

theorem deleteMemo_removes_or_noop:
  "i \<notin> fst ` set (readMemos (deleteMemo i st))
   \<and> (keyedById (readMemos st) \<longrightarrow>
        getAllMemos (deleteMemo i st) = filter (\<lambda>memo. id' memo \<noteq> i) (getAllMemos st)
        \<and> i \<notin> id' ` set (getAllMemos (deleteMemo i st)))
   \<and> (i \<notin> fst ` set (readMemos st) \<longrightarrow> readMemos (deleteMemo i st) = readMemos st)"
proof (intro conjI impI)
  show "i \<notin> fst ` set (readMemos (deleteMemo i st))"
    by (auto simp: readMemos_deleteMemo deleteProperty_def)
next
  assume k: "keyedById (readMemos st)"
  then show "getAllMemos (deleteMemo i st) = filter (\<lambda>memo. id' memo \<noteq> i) (getAllMemos st)"
    by (simp add: getAllMemos_def readMemos_deleteMemo values_deleteProperty)
  then show "i \<notin> id' ` set (getAllMemos (deleteMemo i st))"
    by auto
next
  assume "i \<notin> fst ` set (readMemos st)"
  then have "filter (\<lambda>q. fst q \<noteq> i) (readMemos st) = readMemos st"
    by (auto simp: filter_id_conv)
  then show "readMemos (deleteMemo i st) = readMemos st"
    by (simp add: readMemos_deleteMemo deleteProperty_def)
qed

theorem deleteMemo_removes_or_noop_witness:
  "keyedById (readMemos (Some [(''a'', memoOf ''a'' ''A'' ''example.com'' ''https://example.com/'' 1),
                               (''b'', memoOf ''b'' ''B'' ''example.com'' ''https://example.com/'' 2)]))
   \<and> getAllMemos (deleteMemo ''a'' (Some [(''a'', memoOf ''a'' ''A'' ''example.com'' ''https://example.com/'' 1),
                               (''b'', memoOf ''b'' ''B'' ''example.com'' ''https://example.com/'' 2)]))
       = [memoOf ''b'' ''B'' ''example.com'' ''https://example.com/'' 2]
   \<and> ''c'' \<notin> fst ` set (readMemos (Some [(''a'', memoOf ''a'' ''A'' ''example.com'' ''https://example.com/'' 1)]))
   \<and> deleteMemo ''c'' (Some [(''a'', memoOf ''a'' ''A'' ''example.com'' ''https://example.com/'' 1)])
       = Some [(''a'', memoOf ''a'' ''A'' ''example.com'' ''https://example.com/'' 1)]"
  using deleteMemo_removes_or_noop [of "''a''" "Some [(''a'', memoOf ''a'' ''A'' ''example.com'' ''https://example.com/'' 1),
                               (''b'', memoOf ''b'' ''B'' ''example.com'' ''https://example.com/'' 2)]"]
    deleteMemo_removes_or_noop [of "''c''" "Some [(''a'', memoOf ''a'' ''A'' ''example.com'' ''https://example.com/'' 1)]"]
  by (simp add: store_eval keyedById_def)


section \<open>Import: what becomes of an element\<close>

lemma getProp_memoJson:
  "getProp (memoJson m) ''id'' = Some (JStr (id' m))"
  "getProp (memoJson m) ''title'' = Some (title m)"
  "getProp (memoJson m) ''content'' = Some (JStr (content m))"
  "getProp (memoJson m) ''domain'' = Some (JStr (domain m))"
  "getProp (memoJson m) ''url'' = Some (JStr (url m))"
  "getProp (memoJson m) ''isUrlSpecific'' = Some (JBool (isUrlSpecific m))"
  "getProp (memoJson m) ''createdAt'' = Some (JNum (createdAt m))"
  "getProp (memoJson m) ''updatedAt'' = Some (JNum (updatedAt m))"
  by (simp_all add: getProp_def memoJson_def)

lemma truthy_memoJson: "truthy (memoJson m)"
  by (simp add: memoJson_def)

lemma sanitizedMemo_memoJson:
  "sanitizedMemo (memoJson m) c
     = Some (m\<lparr> title := (if truthy (title m) then title m else JStr ''Untitled'') \<rparr>, c)"
  by (simp add: sanitizedMemo_def numberOrNow_def stringProp_def numberProp_def getProp_memoJson
      truthy_memoJson)

lemma importElement_memoJson:
  "truthy (title m) \<Longrightarrow> importElement (memoJson m) (n, st, c) = (Suc n, saveMemo m st, c)"
  by (simp add: importElement_def sanitizedMemo_memoJson)

lemma import_exported:
  "list_all (\<lambda>m. truthy (title m)) ms
   \<Longrightarrow> fold importElement (map memoJson ms) (n, st, c) = (n + length ms, fold saveMemo ms st, c)"
  by (induction ms arbitrary: n st) (simp_all add: importElement_memoJson)

lemma sanitizedMemo_None: "sanitizedMemo m c = None \<longleftrightarrow> \<not> importable m"
  by (auto simp: sanitizedMemo_def importable_def split: option.splits prod.splits)

lemma sanitizedMemo_fields:
  assumes "sanitizedMemo m c = Some (memo, c')"
  shows "stringProp m ''id'' = Some (id' memo)"
    and "stringProp m ''domain'' = Some (domain memo)"
    and "stringProp m ''content'' = Some (content memo)"
    and "title memo = (case getProp m ''title'' of
                         Some t \<Rightarrow> if truthy t then t else JStr ''Untitled''
                       | None \<Rightarrow> JStr ''Untitled'')"
    and "url memo = (case stringProp m ''url'' of Some u \<Rightarrow> u | None \<Rightarrow> [])"
    and "isUrlSpecific memo = (case getProp m ''isUrlSpecific'' of Some b \<Rightarrow> truthy b | None \<Rightarrow> False)"
  using assms
  by (auto simp: sanitizedMemo_def split: option.splits if_splits prod.splits)

lemma stringProp_truthy: "stringProp m f = Some s \<Longrightarrow> truthy m"
  by (cases m) (simp_all add: stringProp_def getProp_def)




section \<open>Export followed by import\<close>

lemma find_SomeD: "find P xs = Some x \<Longrightarrow> x \<in> set xs \<and> P x"
  by (induction xs) (auto split: if_splits)

lemma lastSaved_Some: "lastSaved k ms = Some m \<Longrightarrow> m \<in> set ms \<and> id' m = k"
  using find_SomeD [of "\<lambda>memo. id' memo = k" "rev ms" m] by (simp add: lastSaved_def)

lemma fold_saveMemo_permuted:
  assumes k: "keyedById s" and p: "''__proto__'' \<notin> fst ` set s"
    and ms: "mset ms = mset (Object_values s)"
  shows "map_of (readMemos (fold saveMemo ms None)) = map_of s"
proof (rule ext)
  fix i
  have set_ms: "set ms = snd ` set s"
    using ms by (metis Object_values_def mset_eq_setD set_map)
  have "mset (map id' ms) = mset (map id' (Object_values s))"
    using ms by (metis mset_map)
  then have "mset (map id' ms) = mset (map fst s)"
    using k by (simp add: keyedById_ids)
  then have d: "distinct (map id' ms)" and ids: "id' ` set ms = fst ` set s"
    using k by (metis keyedById_def mset_eq_imp_distinct_iff, metis mset_eq_setD set_map)
  have inj: "inj_on id' (set ms)"
    using d by (simp add: distinct_map)
  have "''__proto__'' \<notin> id' ` set ms"
    using p ids by simp
  then have m: "map_of (readMemos (fold saveMemo ms None)) i = lastSaved i ms"
    by (simp add: map_of_fold_saveMemo fold_upsert readMemos_None split: option.splits)
  show "map_of (readMemos (fold saveMemo ms None)) i = map_of s i"
  proof (cases "map_of s i")
    case None
    then have "i \<notin> id' ` set ms"
      using ids by (simp add: map_of_eq_None_iff)
    then show ?thesis
      using None by (simp add: m lastSaved_None)
  next
    case (Some x)
    then have xs: "(i, x) \<in> set s"
      by (rule map_of_SomeD)
    with k have ix: "id' x = i"
      by (auto simp: keyedById_def list_all_iff)
    from xs have x: "x \<in> set ms"
      by (force simp: set_ms)
    then have "lastSaved i ms \<noteq> None"
      using ix by (auto simp: lastSaved_None)
    then obtain y where y: "lastSaved i ms = Some y"
      by auto
    then have "y \<in> set ms" "id' y = i"
      by (auto dest: lastSaved_Some)
    with x ix inj have "y = x"
      by (auto dest: inj_onD)
    with y Some show ?thesis
      by (simp add: m)
  qed
qed

lemma handleImportFile_exported:
  assumes "list_all (\<lambda>m. truthy (title m)) ms"
  shows "handleImportFile (Some (JArr (map memoJson ms))) st c
         = (fold saveMemo ms st, c,
            Some (Status (''Imported '' @ String_nat (length ms) @ '' notes successfully!'')))"
  using assms by (simp add: handleImportFile_def import_exported)

lemma sanitizedMemo_fullyPopulated:
  assumes "fullyPopulated j" and "stringProp j ''title'' \<noteq> Some []"
  shows "sanitizedMemo j c = Some (asMemo j, c)"
proof -
  from assms(1) obtain i ttl ct d u b ca ua where p:
    "stringProp j ''id'' = Some i" "stringProp j ''title'' = Some ttl"
    "stringProp j ''content'' = Some ct" "stringProp j ''domain'' = Some d"
    "stringProp j ''url'' = Some u" "boolProp j ''isUrlSpecific'' = Some b"
    "numberProp j ''createdAt'' = Some ca" "numberProp j ''updatedAt'' = Some ua"
    by (auto simp: fullyPopulated_def)
  from p(2) have t: "getProp j ''title'' = Some (JStr ttl)"
    by (auto simp: stringProp_def split: option.splits json.splits)
  from p(6) have s: "getProp j ''isUrlSpecific'' = Some (JBool b)"
    by (auto simp: boolProp_def split: option.splits json.splits)
  from p(2) assms(2) have n: "ttl \<noteq> []"
    by auto
  have "truthy j"
    using p(1) by (rule stringProp_truthy)
  then show ?thesis
    by (simp add: sanitizedMemo_def asMemo_def numberOrNow_def p t s n)
qed

lemma sameRecord_asMemo:
  assumes "fullyPopulated j"
  shows "sameRecord (memoJson (asMemo j)) j"
proof -
  from assms obtain i ttl ct d u b ca ua where p:
    "stringProp j ''id'' = Some i" "stringProp j ''title'' = Some ttl"
    "stringProp j ''content'' = Some ct" "stringProp j ''domain'' = Some d"
    "stringProp j ''url'' = Some u" "boolProp j ''isUrlSpecific'' = Some b"
    "numberProp j ''createdAt'' = Some ca" "numberProp j ''updatedAt'' = Some ua"
    by (auto simp: fullyPopulated_def)
  have s: "stringProp j f = Some x \<Longrightarrow> getProp j f = Some (JStr x)" for f x
    by (auto simp: stringProp_def split: option.splits json.splits)
  have n: "numberProp j f = Some x \<Longrightarrow> getProp j f = Some (JNum x)" for f x
    by (auto simp: numberProp_def split: option.splits json.splits)
  have b: "getProp j ''isUrlSpecific'' = Some (JBool b)"
    using p(6) by (auto simp: boolProp_def split: option.splits json.splits)
  show ?thesis
    by (simp add: sameRecord_def getProp_memoJson asMemo_def p s [OF p(1)] s [OF p(2)]
        s [OF p(3)] s [OF p(4)] s [OF p(5)] b n [OF p(7)] n [OF p(8)])
qed

lemma import_fullyPopulated:
  "list_all (\<lambda>j. fullyPopulated j \<and> stringProp j ''title'' \<noteq> Some []) js
   \<Longrightarrow> fold importElement js (n, st, c) = (n + length js, fold saveMemo (map asMemo js) st, c)"
  by (induction js arbitrary: n st) (simp_all add: importElement_def sanitizedMemo_fullyPopulated)

lemma map_of_map_snd:
  "map_of (map (\<lambda>q. (fst q, f (snd q))) xs) k = map_option f (map_of xs k)"
  by (induction xs) auto

text \<open>
  The backend of a store of typed records: a record whose title is a string is fully
  populated, and two such records are the same exactly when they are equal.
\<close>

lemma fullyPopulated_memoJson:
  "fullyPopulated (memoJson m) \<longleftrightarrow> (\<exists>s. title m = JStr s)"
  by (cases "title m")
    (simp_all add: fullyPopulated_def stringProp_def numberProp_def boolProp_def getProp_memoJson)

lemma stringProp_memoJson_id: "stringProp (memoJson m) ''id'' = Some (id' m)"
  by (simp add: stringProp_def getProp_memoJson)

lemma stringProp_memoJson_title: "stringProp (memoJson m) ''title'' = Some s \<longleftrightarrow> title m = JStr s"
  by (cases "title m") (simp_all add: stringProp_def getProp_memoJson)

lemma sameRecord_memoJson: "sameRecord (memoJson a) (memoJson b) \<longleftrightarrow> a = b"
  by (cases a, cases b) (auto simp: sameRecord_def getProp_memoJson)

text \<open>
  C3, as the code has it. Take what the backend holds for a store as \<open>saveMemo\<close> leaves it:
  each record under its own id, none under the key \<open>__proto__\<close>. Let every record be fully
  populated (\<open>id\<close>, \<open>title\<close>, \<open>content\<close>, \<open>domain\<close> and \<open>url\<close> strings, \<open>isUrlSpecific\<close> a
  boolean, \<open>createdAt\<close> and \<open>updatedAt\<close> numbers), and let no title be the empty string.
  Exporting it and importing the array into the empty store gives a store whose backend
  holds, under each id, the same record as the original, and no record under any other id;
  so it does when the exported array is put into another order first.
\<close>

theorem export_import_roundtrip:
  assumes d: "distinct (map fst stored)"
    and k: "list_all (\<lambda>q. stringProp (snd q) ''id'' = Some (fst q)) stored"
    and p: "''__proto__'' \<notin> fst ` set stored"
    and f: "list_all (\<lambda>q. fullyPopulated (snd q)) stored"
    and t: "list_all (\<lambda>q. stringProp (snd q) ''title'' \<noteq> Some []) stored"
  shows "(\<forall>i. rel_option sameRecord
              (map_of (storedRecords (fst (handleImportFile (Some (handleExport stored)) None c))) i)
              (map_of stored i))
       \<and> (\<forall>js. mset js = mset (Object_values stored) \<longrightarrow>
            (\<forall>i. rel_option sameRecord
                 (map_of (storedRecords (fst (handleImportFile (Some (JArr js)) None c))) i)
                 (map_of stored i)))"
proof -
  define s where "s = map (\<lambda>q. (fst q, asMemo (snd q))) stored"
  have ks: "keyedById s"
    using d k by (auto simp: s_def keyedById_def comp_def list_all_iff asMemo_def)
  have ps: "''__proto__'' \<notin> fst ` set s"
    using p by (force simp: s_def)
  have vs: "Object_values s = map asMemo (Object_values stored)"
    by (simp add: s_def Object_values_def comp_def)
  have perm: "rel_option sameRecord
                 (map_of (storedRecords (fst (handleImportFile (Some (JArr js)) None c))) i)
                 (map_of stored i)"
    if js: "mset js = mset (Object_values stored)" for js i
  proof -
    have "set js = snd ` set stored"
      using mset_eq_setD [OF js] by (simp add: Object_values_def)
    with f t have "list_all (\<lambda>j. fullyPopulated j \<and> stringProp j ''title'' \<noteq> Some []) js"
      by (auto simp: list_all_iff)
    then have "fst (handleImportFile (Some (JArr js)) None c) = fold saveMemo (map asMemo js) None"
      by (simp add: handleImportFile_def import_fullyPopulated)
    moreover have "mset (map asMemo js) = mset (Object_values s)"
      using js by (simp add: vs)
    ultimately have "map_of (readMemos (fst (handleImportFile (Some (JArr js)) None c))) = map_of s"
      using fold_saveMemo_permuted [OF ks ps, of "map asMemo js"] by simp
    then have m: "map_of (storedRecords (fst (handleImportFile (Some (JArr js)) None c))) i
        = map_option (\<lambda>j. memoJson (asMemo j)) (map_of stored i)"
      by (simp add: storedRecords_def s_def map_of_map_snd option.map_comp comp_def)
    show ?thesis
    proof (cases "map_of stored i")
      case None
      then show ?thesis by (simp add: m)
    next
      case (Some j)
      then have "(i, j) \<in> set stored"
        by (rule map_of_SomeD)
      with f have "fullyPopulated j"
        by (auto simp: list_all_iff)
      then show ?thesis
        by (simp add: m Some sameRecord_asMemo)
    qed
  qed
  have "rel_option sameRecord
          (map_of (storedRecords (fst (handleImportFile (Some (handleExport stored)) None c))) i)
          (map_of stored i)" for i
    using perm [of "Object_values stored" i] by (simp add: handleExport_def)
  with perm show ?thesis
    by blast
qed

theorem export_import_roundtrip_witness:
  "distinct (map fst [(''10'', memoJson (memoOf ''10'' ''Ten'' ''example.com'' ''https://example.com/a'' 7)),
                      (''b'', memoJson (memoOf ''b'' ''B'' ''example.org'' ''https://example.org/'' 9))])
   \<and> list_all (\<lambda>q. stringProp (snd q) ''id'' = Some (fst q))
        [(''10'', memoJson (memoOf ''10'' ''Ten'' ''example.com'' ''https://example.com/a'' 7)),
         (''b'', memoJson (memoOf ''b'' ''B'' ''example.org'' ''https://example.org/'' 9))]
   \<and> ''__proto__'' \<notin> fst ` set [(''10'', memoJson (memoOf ''10'' ''Ten'' ''example.com'' ''https://example.com/a'' 7)),
         (''b'', memoJson (memoOf ''b'' ''B'' ''example.org'' ''https://example.org/'' 9))]
   \<and> list_all (\<lambda>q. fullyPopulated (snd q))
        [(''10'', memoJson (memoOf ''10'' ''Ten'' ''example.com'' ''https://example.com/a'' 7)),
         (''b'', memoJson (memoOf ''b'' ''B'' ''example.org'' ''https://example.org/'' 9))]
   \<and> list_all (\<lambda>q. stringProp (snd q) ''title'' \<noteq> Some [])
        [(''10'', memoJson (memoOf ''10'' ''Ten'' ''example.com'' ''https://example.com/a'' 7)),
         (''b'', memoJson (memoOf ''b'' ''B'' ''example.org'' ''https://example.org/'' 9))]
   \<and> rel_option sameRecord
        (map_of (storedRecords (fst (handleImportFile
           (Some (handleExport [(''10'', memoJson (memoOf ''10'' ''Ten'' ''example.com'' ''https://example.com/a'' 7)),
                                (''b'', memoJson (memoOf ''b'' ''B'' ''example.org'' ''https://example.org/'' 9))]))
           None (clockFrom 1000)))) ''10'')
        (Some (memoJson (memoOf ''10'' ''Ten'' ''example.com'' ''https://example.com/a'' 7)))
   \<and> rel_option sameRecord
        (map_of (storedRecords (fst (handleImportFile
           (Some (JArr [memoJson (memoOf ''b'' ''B'' ''example.org'' ''https://example.org/'' 9),
                        memoJson (memoOf ''10'' ''Ten'' ''example.com'' ''https://example.com/a'' 7)]))
           None (clockFrom 1000)))) ''b'')
        (Some (memoJson (memoOf ''b'' ''B'' ''example.org'' ''https://example.org/'' 9)))"
proof -
  define r10 where "r10 = memoJson (memoOf ''10'' ''Ten'' ''example.com'' ''https://example.com/a'' 7)"
  define rb where "rb = memoJson (memoOf ''b'' ''B'' ''example.org'' ''https://example.org/'' 9)"
  have d: "distinct (map fst [(''10'', r10), (''b'', rb)])"
    by simp
  have k: "list_all (\<lambda>q. stringProp (snd q) ''id'' = Some (fst q)) [(''10'', r10), (''b'', rb)]"
    by (simp add: r10_def rb_def stringProp_memoJson_id memoOf_def)
  have p: "''__proto__'' \<notin> fst ` set [(''10'', r10), (''b'', rb)]"
    by simp
  have f: "list_all (\<lambda>q. fullyPopulated (snd q)) [(''10'', r10), (''b'', rb)]"
    by (simp add: r10_def rb_def fullyPopulated_memoJson memoOf_def)
  have t: "list_all (\<lambda>q. stringProp (snd q) ''title'' \<noteq> Some []) [(''10'', r10), (''b'', rb)]"
    by (simp add: r10_def rb_def stringProp_memoJson_title memoOf_def)
  note r = export_import_roundtrip [OF d k p f t, where c = "clockFrom 1000"]
  from r have a: "rel_option sameRecord
        (map_of (storedRecords (fst (handleImportFile (Some (handleExport [(''10'', r10), (''b'', rb)]))
           None (clockFrom 1000)))) ''10'') (map_of [(''10'', r10), (''b'', rb)] ''10'')"
    by (rule conjunct1 [THEN spec])
  have "mset [rb, r10] = mset (Object_values [(''10'', r10), (''b'', rb)])"
    by (simp add: Object_values_def)
  then have b: "rel_option sameRecord
        (map_of (storedRecords (fst (handleImportFile (Some (JArr [rb, r10])) None (clockFrom 1000)))) ''b'')
        (map_of [(''10'', r10), (''b'', rb)] ''b'')"
    by (rule r [THEN conjunct2, rule_format])
  from d k p f t a b show ?thesis
    unfolding r10_def rb_def by simp
qed

lemma export_import_Untitled:
  "map_of (storedRecords (fst (handleImportFile
       (Some (handleExport [(''a'', memoJson (memoOf ''a'' [] ''example.com'' ''https://example.com/'' 1))]))
       None (clockFrom 1000)))) ''a''
   = Some (memoJson (memoOf ''a'' ''Untitled'' ''example.com'' ''https://example.com/'' 1))"
proof -
  have "fst (handleImportFile
       (Some (handleExport [(''a'', memoJson (memoOf ''a'' [] ''example.com'' ''https://example.com/'' 1))]))
       None (clockFrom 1000))
     = saveMemo (memoOf ''a'' ''Untitled'' ''example.com'' ''https://example.com/'' 1) None"
    by (simp add: handleExport_def Object_values_def handleImportFile_def importElement_def
        sanitizedMemo_memoJson)
      (simp add: memoOf_def)
  then show ?thesis
    by (simp add: storedRecords_def map_of_map_snd map_of_saveMemo memoOf_def)
qed

text \<open>
  C3 as stated fails: a record with all fields populated and the empty string as its title
  is fully populated, and it comes back with the title \<open>Untitled\<close>.
\<close>

theorem export_import_empty_title_counterexample:
  "fullyPopulated (memoJson (memoOf ''a'' [] ''example.com'' ''https://example.com/'' 1))
   \<and> map_of (storedRecords (fst (handleImportFile
       (Some (handleExport [(''a'', memoJson (memoOf ''a'' [] ''example.com'' ''https://example.com/'' 1))]))
       None (clockFrom 1000)))) ''a''
     = Some (memoJson (memoOf ''a'' ''Untitled'' ''example.com'' ''https://example.com/'' 1))
   \<and> \<not> rel_option sameRecord
       (map_of (storedRecords (fst (handleImportFile
          (Some (handleExport [(''a'', memoJson (memoOf ''a'' [] ''example.com'' ''https://example.com/'' 1))]))
          None (clockFrom 1000)))) ''a'')
       (map_of [(''a'', memoJson (memoOf ''a'' [] ''example.com'' ''https://example.com/'' 1))] ''a'')"
  by (simp add: export_import_Untitled fullyPopulated_memoJson sameRecord_memoJson) (simp add: memoOf_def)

text \<open>
  The condition on the two timestamps is needed. A record imported with a number that is
  not finite (\<open>"updatedAt": 1e400\<close>) is written to the backend with \<open>null\<close> in its place. The
  store is then keyed by id and the title is a non-empty string, but the record is not
  fully populated, and after export and import it has the time of the import.
\<close>

lemma export_import_null_timestamp:
  "\<not> fullyPopulated (JObj [(''id'', JStr ''a''), (''title'', JStr ''T''), (''content'', JStr ''text''),
        (''domain'', JStr ''example.com''), (''url'', JStr ''https://example.com/''),
        (''isUrlSpecific'', JBool False), (''createdAt'', JNum 1), (''updatedAt'', JNull)])
   \<and> map_of (storedRecords (fst (handleImportFile
       (Some (handleExport [(''a'', JObj [(''id'', JStr ''a''), (''title'', JStr ''T''), (''content'', JStr ''text''),
        (''domain'', JStr ''example.com''), (''url'', JStr ''https://example.com/''),
        (''isUrlSpecific'', JBool False), (''createdAt'', JNum 1), (''updatedAt'', JNull)])]))
       None (clockFrom 1000)))) ''a''
     = Some (JObj [(''id'', JStr ''a''), (''title'', JStr ''T''), (''content'', JStr ''text''),
        (''domain'', JStr ''example.com''), (''url'', JStr ''https://example.com/''),
        (''isUrlSpecific'', JBool False), (''createdAt'', JNum 1), (''updatedAt'', JNum 1000)])"
proof -
  define j where "j = JObj [(''id'', JStr ''a''), (''title'', JStr ''T''), (''content'', JStr ''text''),
        (''domain'', JStr ''example.com''), (''url'', JStr ''https://example.com/''),
        (''isUrlSpecific'', JBool False), (''createdAt'', JNum 1), (''updatedAt'', JNull)]"
  have g: "getProp j ''id'' = Some (JStr ''a'')" "getProp j ''title'' = Some (JStr ''T'')"
    "getProp j ''content'' = Some (JStr ''text'')" "getProp j ''domain'' = Some (JStr ''example.com'')"
    "getProp j ''url'' = Some (JStr ''https://example.com/'')"
    "getProp j ''isUrlSpecific'' = Some (JBool False)"
    "getProp j ''createdAt'' = Some (JNum 1)" "getProp j ''updatedAt'' = Some JNull"
    by (simp_all add: j_def getProp_def)
  have n: "\<not> fullyPopulated j"
    by (simp add: fullyPopulated_def numberProp_def g)
  have "truthy j"
    by (simp add: j_def)
  then have "sanitizedMemo j (clockFrom 1000)
      = Some (\<lparr> id' = ''a'', title = JStr ''T'', content = ''text'', domain = ''example.com'',
                 url = ''https://example.com/'', isUrlSpecific = False, createdAt = 1,
                 updatedAt = 1000 \<rparr>, \<lparr> readings = (\<lambda>n. 1000 + int n), calls = 1 \<rparr>)"
    by (simp add: sanitizedMemo_def stringProp_def numberProp_def numberOrNow_def g Date_now_def
        clockFrom_def)
  then have "fst (handleImportFile (Some (handleExport [(''a'', j)])) None (clockFrom 1000))
      = saveMemo \<lparr> id' = ''a'', title = JStr ''T'', content = ''text'', domain = ''example.com'',
                 url = ''https://example.com/'', isUrlSpecific = False, createdAt = 1,
                 updatedAt = 1000 \<rparr> None"
    by (simp add: handleExport_def Object_values_def handleImportFile_def importElement_def)
  then have "map_of (storedRecords (fst (handleImportFile (Some (handleExport [(''a'', j)])) None
        (clockFrom 1000)))) ''a''
     = Some (JObj [(''id'', JStr ''a''), (''title'', JStr ''T''), (''content'', JStr ''text''),
        (''domain'', JStr ''example.com''), (''url'', JStr ''https://example.com/''),
        (''isUrlSpecific'', JBool False), (''createdAt'', JNum 1), (''updatedAt'', JNum 1000)])"
    by (simp add: storedRecords_def map_of_map_snd map_of_saveMemo) (simp add: memoJson_def)
  with n show ?thesis
    unfolding j_def by simp
qed


section \<open>Import: the count and the store\<close>

lemma importElement_count:
  "fst (importElement m (n, st, c)) = (if importable m then Suc n else n)"
  using sanitizedMemo_None [of m c]
  by (cases "sanitizedMemo m c") (auto simp: importElement_def)

lemma fold_importElement_count:
  "fst (fold importElement elems (n, st, c)) = n + length (filter importable elems)"
proof (induction elems arbitrary: n st c)
  case Nil
  then show ?case by simp
next
  case (Cons m elems)
  obtain n' st' c' where s: "importElement m (n, st, c) = (n', st', c')"
    by (cases "importElement m (n, st, c)")
  then have "n' = (if importable m then Suc n else n)"
    using importElement_count [of m n st c] by simp
  then show ?case
    by (simp add: s Cons.IH)
qed

lemma sanitizedMemo_timestamps:
  assumes "sanitizedMemo m c = Some (memo, c')"
  shows "createdAt memo = (case numberProp m ''createdAt'' of Some n \<Rightarrow> n | None \<Rightarrow> readings c (calls c))"
    and "numberProp m ''updatedAt'' = Some n \<Longrightarrow> updatedAt memo = n"
  using assms
  by (auto simp: sanitizedMemo_def numberOrNow_def Date_now_def
      split: option.splits if_splits prod.splits)

lemma import_valid_and_invalid:
  assumes "importable a" and "stringProp a ''id'' = Some i" and "i \<noteq> ''__proto__''"
    and "\<not> importable b"
  shows "\<exists>memo. getAllMemos (fst (handleImportFile (Some (JArr [a, b])) None c)) = [memo]
           \<and> id' memo = i
           \<and> snd (snd (handleImportFile (Some (JArr [a, b])) None c))
               = Some (Status ''Imported 1 notes successfully!'')"
proof -
  obtain memo c' where s: "sanitizedMemo a c = Some (memo, c')"
    using assms(1) sanitizedMemo_None [of a c] by (cases "sanitizedMemo a c") auto
  then have i: "id' memo = i"
    using sanitizedMemo_fields(1) [OF s] assms(2) by simp
  have b: "sanitizedMemo b c' = None"
    using assms(4) by (simp add: sanitizedMemo_None)
  have one: "String_nat (Suc 0) = ''1''"
    by code_simp
  have "handleImportFile (Some (JArr [a, b])) None c
      = (saveMemo memo None, c', Some (Status ''Imported 1 notes successfully!''))"
    by (simp add: handleImportFile_def importElement_def s b one)
  moreover have "getAllMemos (saveMemo memo None) = [memo]"
    using i assms(3)
    by (cases "arrayIndex i")
      (simp_all add: getAllMemos_def saveMemo_def readMemos_def setProperty_def Object_values_def)
  ultimately show ?thesis
    using i by simp
qed

text \<open>
  C4. The import counts the elements whose \<open>id\<close>, \<open>domain\<close> and \<open>content\<close> are strings
  and hands each, with the defaults filled in, to \<open>saveMemo\<close>; with a valid element of
  any other id and an element without \<open>domain\<close>, one record is stored and one reported
  (the lemmas above). Of the two elements imported here into the empty store, the first is
  valid and the second has no \<open>domain\<close>; the first is counted (the page reports one note),
  but its id is \<open>__proto__\<close> and \<open>saveMemo\<close> does not store it: the store holds no record
  afterward.
\<close>

theorem import_proto_id_counted_not_stored:
  "getAllMemos (fst (handleImportFile
       (Some (JArr [JObj [(''id'', JStr ''__proto__''), (''domain'', JStr ''example.com''), (''content'', JStr ''text'')],
                    JObj [(''id'', JStr ''b''), (''content'', JStr ''text'')]]))
       None (clockFrom 1000))) = []
   \<and> snd (snd (handleImportFile
       (Some (JArr [JObj [(''id'', JStr ''__proto__''), (''domain'', JStr ''example.com''), (''content'', JStr ''text'')],
                    JObj [(''id'', JStr ''b''), (''content'', JStr ''text'')]]))
       None (clockFrom 1000))) = Some (Status ''Imported 1 notes successfully!'')"
proof -
  let ?a = "JObj [(''id'', JStr ''__proto__''), (''domain'', JStr ''example.com''), (''content'', JStr ''text'')]"
  let ?b = "JObj [(''id'', JStr ''b''), (''content'', JStr ''text'')]"
  have a: "importable ?a" and ia: "stringProp ?a ''id'' = Some ''__proto__''"
    by (simp_all add: importable_def stringProp_def getProp_def)
  have b: "\<not> importable ?b"
    by (simp add: importable_def stringProp_def getProp_def)
  obtain memo c' where s: "sanitizedMemo ?a (clockFrom 1000) = Some (memo, c')"
    using a sanitizedMemo_None [of ?a "clockFrom 1000"] by (cases "sanitizedMemo ?a (clockFrom 1000)") auto
  then have i: "id' memo = ''__proto__''"
    using sanitizedMemo_fields(1) [OF s] ia by simp
  have "saveMemo memo None = Some []"
    by (simp add: saveMemo_def readMemos_def setProperty_def i)
  moreover have "sanitizedMemo ?b c' = None"
    using b by (simp add: sanitizedMemo_None)
  ultimately have "handleImportFile (Some (JArr [?a, ?b])) None (clockFrom 1000)
      = (Some [], c', Some (Status (''Imported '' @ String_nat 1 @ '' notes successfully!'')))"
    by (simp add: handleImportFile_def importElement_def s)
  moreover have "String_nat 1 = ''1''"
    by code_simp
  ultimately show ?thesis
    by (simp add: getAllMemos_def readMemos_def Object_values_def)
qed


section \<open>What the store guarantees of its records\<close>

lemma keyedById_importElement:
  "keyedById (readMemos (fst (snd acc))) \<Longrightarrow> keyedById (readMemos (fst (snd (importElement m acc))))"
  by (cases acc) (auto simp: importElement_def keyedById_saveMemo split: option.splits)

lemma keyedById_fold_importElement:
  "keyedById (readMemos (fst (snd acc)))
   \<Longrightarrow> keyedById (readMemos (fst (snd (fold importElement elems acc))))"
  by (induction elems arbitrary: acc) (simp_all add: keyedById_importElement)

lemma keyedById_handleImportFile:
  assumes "keyedById (readMemos st)"
  shows "keyedById (readMemos (fst (handleImportFile parsed st c)))"
proof (cases parsed)
  case None
  with assms show ?thesis
    by (simp add: handleImportFile_def)
next
  case (Some j)
  show ?thesis
  proof (cases j)
    case (JArr elems)
    have "keyedById (readMemos (fst (snd (fold importElement elems (0, st, c)))))"
      using assms by (intro keyedById_fold_importElement) simp
    then show ?thesis
      by (cases "fold importElement elems (0, st, c)") (simp add: handleImportFile_def Some JArr)
  qed (use assms in \<open>simp_all add: handleImportFile_def Some\<close>)
qed

lemma keyedById_deleteMemo: "keyedById (readMemos st) \<Longrightarrow> keyedById (readMemos (deleteMemo i st))"
  by (simp add: readMemos_deleteMemo keyedById_deleteProperty)

lemma newMemo_fields:
  "id' (fst (newMemo dm ur t uuid formatDate c)) = uuid"
  "domain (fst (newMemo dm ur t uuid formatDate c)) = dm"
  "createdAt (fst (newMemo dm ur t uuid formatDate c)) = readings c (Suc (calls c))"
  "updatedAt (fst (newMemo dm ur t uuid formatDate c)) = readings c (Suc (Suc (calls c)))"
  by (simp_all add: newMemo_def Date_now_def Let_def)

lemma createMemo_store:
  "fst (createMemo d u t vm uuid formatDate c st h)
     = (case d of
          None \<Rightarrow> st
        | Some dm \<Rightarrow>
            (case u of
               None \<Rightarrow> st
             | Some ur \<Rightarrow>
                 if dm = [] \<or> ur = [] then st
                 else saveMemo (fst (newMemo dm ur t uuid formatDate c)) st))"
  by (simp add: createMemo_def Let_def split_beta split: option.splits)

lemma keyedById_createMemo:
  "keyedById (readMemos st)
   \<Longrightarrow> keyedById (readMemos (fst (createMemo d u t vm uuid formatDate c st h)))"
  by (simp add: createMemo_store keyedById_saveMemo split: option.splits)

lemma store_updateMemo: "store (updateMemo m r) = store r"
  by (simp add: updateMemo_def setTimeout_def clearTimeout_def Let_def split: option.splits)

lemma keyedById_fold_runTimer:
  "keyedById (readMemos (store r)) \<Longrightarrow> keyedById (readMemos (store (fold runTimer xs r)))"
  by (induction xs arbitrary: r) (simp_all add: runTimer_def keyedById_saveMemo split: prod.splits)

lemma keyedById_advanceTo:
  "keyedById (readMemos (store r)) \<Longrightarrow> keyedById (readMemos (store (advanceTo T r)))"
  by (simp add: advanceTo_def Let_def keyedById_fold_runTimer)

text \<open>
  C7, as the code has it. The empty store is keyed by id, and \<open>saveMemo\<close>, \<open>deleteMemo\<close>,
  \<open>handleImportFile\<close>, \<open>createMemo\<close> and the commit of an edit (\<open>updateMemo\<close>, then
  the timer) keep it so: the ids of the stored records are distinct at all times. When
  \<open>createMemo\<close> creates a record (\<open>domain\<close> and \<open>url\<close> are not empty), it saves
  \<open>newMemo\<close>, whose id is the generated one, whose domain is not empty, and whose
  \<open>updatedAt\<close> is at least its \<open>createdAt\<close> when the clock does not go back between the
  two readings. An edit hands to \<open>updateMemo\<close> the active record with the edited field and
  \<open>updatedAt\<close> set to the time of the edit. No operation checks that an id or a domain given to it is
  not empty, nor the order of the two timestamps.
\<close>

theorem store_keyed_by_id_createMemo_valid:
  "keyedById (readMemos None)
   \<and> (keyedById (readMemos st) \<longrightarrow>
        distinct (map id' (getAllMemos st))
        \<and> keyedById (readMemos (saveMemo memo st))
        \<and> keyedById (readMemos (deleteMemo i st))
        \<and> keyedById (readMemos (fst (handleImportFile parsed st c)))
        \<and> keyedById (readMemos (fst (createMemo d u t vm uuid formatDate c st h))))
   \<and> (keyedById (readMemos (store r)) \<longrightarrow>
        keyedById (readMemos (store (advanceTo T (updateMemo memo r)))))
   \<and> (activeMemo (hookState r) = Some a \<longrightarrow>
        handleTitleChange v nowMs r = updateMemo (a\<lparr> title := JStr v, updatedAt := nowMs \<rparr>) r
        \<and> handleContentChange v nowMs r = updateMemo (a\<lparr> content := v, updatedAt := nowMs \<rparr>) r)
   \<and> (dm \<noteq> [] \<and> ur \<noteq> [] \<longrightarrow>
        fst (createMemo (Some dm) (Some ur) t vm uuid formatDate c st h)
          = saveMemo (fst (newMemo dm ur t uuid formatDate c)) st
        \<and> id' (fst (newMemo dm ur t uuid formatDate c)) = uuid
        \<and> domain (fst (newMemo dm ur t uuid formatDate c)) \<noteq> []
        \<and> (readings c (Suc (calls c)) \<le> readings c (Suc (Suc (calls c))) \<longrightarrow>
             createdAt (fst (newMemo dm ur t uuid formatDate c))
               \<le> updatedAt (fst (newMemo dm ur t uuid formatDate c))))"
proof (intro conjI impI)
  show "keyedById (readMemos None)"
    by (simp add: keyedById_def readMemos_None)
next
  assume k: "keyedById (readMemos st)"
  then show "distinct (map id' (getAllMemos st))"
    by (simp add: getAllMemos_def keyedById_ids) (simp add: keyedById_def)
  from k show "keyedById (readMemos (saveMemo memo st))"
    by (rule keyedById_saveMemo)
  from k show "keyedById (readMemos (deleteMemo i st))"
    by (rule keyedById_deleteMemo)
  from k show "keyedById (readMemos (fst (handleImportFile parsed st c)))"
    by (rule keyedById_handleImportFile)
  from k show "keyedById (readMemos (fst (createMemo d u t vm uuid formatDate c st h)))"
    by (rule keyedById_createMemo)
next
  assume "keyedById (readMemos (store r))"
  then show "keyedById (readMemos (store (advanceTo T (updateMemo memo r))))"
    by (intro keyedById_advanceTo) (simp add: store_updateMemo)
next
  assume a: "activeMemo (hookState r) = Some a"
  then show "handleTitleChange v nowMs r = updateMemo (a\<lparr> title := JStr v, updatedAt := nowMs \<rparr>) r"
    by (simp add: handleTitleChange_def)
  from a show "handleContentChange v nowMs r = updateMemo (a\<lparr> content := v, updatedAt := nowMs \<rparr>) r"
    by (simp add: handleContentChange_def)
next
  assume a: "dm \<noteq> [] \<and> ur \<noteq> []"
  then show "fst (createMemo (Some dm) (Some ur) t vm uuid formatDate c st h)
          = saveMemo (fst (newMemo dm ur t uuid formatDate c)) st"
    by (simp add: createMemo_store)
  show "id' (fst (newMemo dm ur t uuid formatDate c)) = uuid"
    by (simp add: newMemo_fields)
  from a show "domain (fst (newMemo dm ur t uuid formatDate c)) \<noteq> []"
    by (simp add: newMemo_fields)
next
  assume "readings c (Suc (calls c)) \<le> readings c (Suc (Suc (calls c)))"
  then show "createdAt (fst (newMemo dm ur t uuid formatDate c))
               \<le> updatedAt (fst (newMemo dm ur t uuid formatDate c))"
    by (simp add: newMemo_fields)
qed

theorem store_keyed_by_id_createMemo_valid_witness:
  "keyedById (readMemos None)
   \<and> ''example.com'' \<noteq> [] \<and> ''https://example.com/'' \<noteq> []
   \<and> readings (clockFrom 1000) (Suc (calls (clockFrom 1000)))
        \<le> readings (clockFrom 1000) (Suc (Suc (calls (clockFrom 1000))))
   \<and> keyedById (readMemos (fst (createMemo (Some ''example.com'') (Some ''https://example.com/'') None
          DomainView ''123e4567-e89b-42d3-a456-426614174000'' (\<lambda>ms. ''2026-01-01 00:00'')
          (clockFrom 1000) None \<lparr> memos = [], activeMemoId = None, saveTimeoutRef = None \<rparr>)))
   \<and> domain (fst (newMemo ''example.com'' ''https://example.com/'' None
          ''123e4567-e89b-42d3-a456-426614174000'' (\<lambda>ms. ''2026-01-01 00:00'') (clockFrom 1000))) \<noteq> []
   \<and> createdAt (fst (newMemo ''example.com'' ''https://example.com/'' None
          ''123e4567-e89b-42d3-a456-426614174000'' (\<lambda>ms. ''2026-01-01 00:00'') (clockFrom 1000)))
       \<le> updatedAt (fst (newMemo ''example.com'' ''https://example.com/'' None
          ''123e4567-e89b-42d3-a456-426614174000'' (\<lambda>ms. ''2026-01-01 00:00'') (clockFrom 1000)))"
proof -
  have a: "''example.com'' \<noteq> [] \<and> ''https://example.com/'' \<noteq> []"
    by simp
  have b: "readings (clockFrom 1000) (Suc (calls (clockFrom 1000)))
        \<le> readings (clockFrom 1000) (Suc (Suc (calls (clockFrom 1000))))"
    by (simp add: clockFrom_def)
  note t = store_keyed_by_id_createMemo_valid [where st = None
      and d = "Some ''example.com''" and u = "Some ''https://example.com/''"
      and dm = "''example.com''" and ur = "''https://example.com/''" and t = None
      and vm = DomainView and uuid = "''123e4567-e89b-42d3-a456-426614174000''"
      and formatDate = "\<lambda>ms. ''2026-01-01 00:00''" and c = "clockFrom 1000"
      and h = "\<lparr> memos = [], activeMemoId = None, saveTimeoutRef = None \<rparr>"]
  from t have k: "keyedById (readMemos None)"
    by (rule conjunct1)
  from t k have 1: "keyedById (readMemos (fst (createMemo (Some ''example.com'') (Some ''https://example.com/'') None
          DomainView ''123e4567-e89b-42d3-a456-426614174000'' (\<lambda>ms. ''2026-01-01 00:00'')
          (clockFrom 1000) None \<lparr> memos = [], activeMemoId = None, saveTimeoutRef = None \<rparr>)))"
    by simp
  from t a b have 2: "domain (fst (newMemo ''example.com'' ''https://example.com/'' None
          ''123e4567-e89b-42d3-a456-426614174000'' (\<lambda>ms. ''2026-01-01 00:00'') (clockFrom 1000))) \<noteq> []"
    and 3: "createdAt (fst (newMemo ''example.com'' ''https://example.com/'' None
          ''123e4567-e89b-42d3-a456-426614174000'' (\<lambda>ms. ''2026-01-01 00:00'') (clockFrom 1000)))
       \<le> updatedAt (fst (newMemo ''example.com'' ''https://example.com/'' None
          ''123e4567-e89b-42d3-a456-426614174000'' (\<lambda>ms. ''2026-01-01 00:00'') (clockFrom 1000)))"
    by simp_all
  from k a b 1 2 3 show ?thesis
    by simp
qed

lemma import_unchecked_element:
  "sanitizedMemo (JObj [(''id'', JStr []), (''domain'', JStr []), (''content'', JStr []),
                        (''createdAt'', JNum 5), (''updatedAt'', JNum 1)]) c
   = Some (\<lparr> id' = [], title = JStr ''Untitled'', content = [], domain = [], url = [],
              isUrlSpecific = False, createdAt = 5, updatedAt = 1 \<rparr>, c)"
  by (simp add: sanitizedMemo_def numberOrNow_def stringProp_def numberProp_def getProp_def)

text \<open>
  C7 as stated fails: the import persists a record whose id and domain are empty and whose
  \<open>updatedAt\<close> is before its \<open>createdAt\<close>.
\<close>

theorem import_persists_unchecked_record_counterexample:
  "getAllMemos (fst (handleImportFile
       (Some (JArr [JObj [(''id'', JStr []), (''domain'', JStr []), (''content'', JStr []),
                          (''createdAt'', JNum 5), (''updatedAt'', JNum 1)]]))
       None (clockFrom 1000)))
   = [\<lparr> id' = [], title = JStr ''Untitled'', content = [], domain = [], url = [],
        isUrlSpecific = False, createdAt = 5, updatedAt = 1 \<rparr>]"
  by (simp add: handleImportFile_def importElement_def import_unchecked_element)
    (simp add: store_eval)


section \<open>Badge and context menu\<close>

lemma decimalValue_snoc: "decimalValue (xs @ [c]) = 10 * decimalValue xs + (of_char c - 48)"
  by (simp add: decimalValue_def)

lemma digit_char: "d < 10 \<Longrightarrow> (of_char (char_of (48 + d :: nat)) :: nat) = 48 + d"
  by simp

lemma isDigit_digit: "d < 10 \<Longrightarrow> isDigit (char_of (48 + d :: nat))"
  by (simp add: isDigit_def)

lemma digit_zero: "d < 10 \<Longrightarrow> char_of (48 + d :: nat) = CHR ''0'' \<Longrightarrow> d = 0"
proof -
  assume d: "d < 10" and "char_of (48 + d :: nat) = CHR ''0''"
  then have "(of_char (char_of (48 + d)) :: nat) = of_char (CHR ''0'')"
    by simp
  with d show "d = 0"
    by simp
qed

lemma String_nat_decimal:
  "decimalValue (String_nat n) = n \<and> list_all isDigit (String_nat n) \<and> String_nat n \<noteq> []
   \<and> (0 < n \<longrightarrow> hd (String_nat n) \<noteq> CHR ''0'')"
proof (induction n rule: String_nat.induct)
  case (1 n)
  show ?case
  proof (cases "n < 10")
    case True
    then have s: "String_nat n = [char_of (48 + n)]"
      by (simp add: String_nat.simps)
    have "decimalValue [char_of (48 + n)] = n"
      using digit_char [OF True] by (simp add: decimalValue_def)
    moreover have "0 < n \<longrightarrow> char_of (48 + n) \<noteq> CHR ''0''"
      using digit_zero [OF True] by auto
    ultimately show ?thesis
      using isDigit_digit [OF True] by (simp add: s)
  next
    case False
    have m: "n mod 10 < 10"
      by simp
    from False have s: "String_nat n = String_nat (n div 10) @ [char_of (48 + n mod 10)]"
      by (subst String_nat.simps) simp
    have ih: "decimalValue (String_nat (n div 10)) = n div 10"
      "list_all isDigit (String_nat (n div 10))" "String_nat (n div 10) \<noteq> []"
      "hd (String_nat (n div 10)) \<noteq> CHR ''0''"
      using "1.IH" False by simp_all
    have "decimalValue (String_nat n) = 10 * (n div 10) + n mod 10"
      using digit_char [OF m] by (simp add: s decimalValue_snoc ih(1))
    then have "decimalValue (String_nat n) = n"
      by simp
    then show ?thesis
      using ih isDigit_digit [OF m] by (simp add: s)
  qed
qed

lemma updateBadgeAndMenu_count:
  assumes "u \<noteq> []" and "n = length (filter (\<lambda>m. url m = u) (getAllMemos st))"
  shows "updateBadgeAndMenu tabId u st ui =
     (let ui1 = (if 0 < n
                 then ui\<lparr> badgeText := (badgeText ui)(tabId \<mapsto> String_nat n),
                          badgeColor := (badgeColor ui)(tabId \<mapsto> ''#22c55e'') \<rparr>
                 else ui\<lparr> badgeText := (badgeText ui)(tabId \<mapsto> []) \<rparr>);
          menuTitle = (if 0 < n then ''Open Note for this Page'' else ''Create Note for this Page'')
      in case contextMenus ui1 of
           None \<Rightarrow> ui1
         | Some items \<Rightarrow>
             (case items ''domain-memo-action'' of
                None \<Rightarrow> ui1
              | Some old \<Rightarrow> ui1\<lparr> contextMenus := Some (items(''domain-memo-action'' \<mapsto> menuTitle)) \<rparr>))"
  using assms(1) unfolding assms(2) updateBadgeAndMenu_def getAllMemos_def Let_def
  by (simp del: length_greater_0_conv)

text \<open>
  C6. For a tab with a non-empty URL \<open>u\<close>, let \<open>n\<close> be the number of stored records whose
  \<open>url\<close> is exactly \<open>u\<close>. After \<open>updateBadgeAndMenu\<close>: if \<open>n > 0\<close> the badge text of the
  tab is \<open>String n\<close> and its badge colour is \<open>#22c55e\<close>; otherwise the badge text is the
  empty string; and the context-menu item \<open>domain-memo-action\<close>, where it exists, is titled
  \<open>Open Note for this Page\<close> if \<open>n > 0\<close> and \<open>Create Note for this Page\<close> otherwise.
  \<open>String n\<close> is the decimal numeral of \<open>n\<close>: digits only, of value \<open>n\<close>, without a
  leading zero.
\<close>

theorem updateBadgeAndMenu_badge_and_label:
  assumes "u \<noteq> []"
  shows "let n = length (filter (\<lambda>m. url m = u) (getAllMemos st));
             ui' = updateBadgeAndMenu tabId u st ui
         in (0 < n \<longrightarrow> badgeText ui' tabId = Some (String_nat n)
                      \<and> badgeColor ui' tabId = Some ''#22c55e'')
          \<and> (n = 0 \<longrightarrow> badgeText ui' tabId = Some [])
          \<and> (\<forall>items old. contextMenus ui = Some items \<and> items ''domain-memo-action'' = Some old \<longrightarrow>
                (\<exists>items'. contextMenus ui' = Some items'
                   \<and> items' ''domain-memo-action''
                       = Some (if 0 < n then ''Open Note for this Page''
                               else ''Create Note for this Page'')))
          \<and> decimalValue (String_nat n) = n \<and> list_all isDigit (String_nat n)
          \<and> (0 < n \<longrightarrow> hd (String_nat n) \<noteq> CHR ''0'')"
proof -
  define n where "n = length (filter (\<lambda>m. url m = u) (getAllMemos st))"
  define ui' where "ui' = updateBadgeAndMenu tabId u st ui"
  note eq = updateBadgeAndMenu_count [OF assms n_def, of tabId ui, folded ui'_def]
  have pos: "0 < n \<longrightarrow> badgeText ui' tabId = Some (String_nat n) \<and> badgeColor ui' tabId = Some ''#22c55e''"
    by (simp add: eq Let_def split: option.splits)
  have zero: "n = 0 \<longrightarrow> badgeText ui' tabId = Some []"
    by (simp add: eq Let_def split: option.splits)
  have menu: "\<exists>items'. contextMenus ui' = Some items'
                   \<and> items' ''domain-memo-action''
                       = Some (if 0 < n then ''Open Note for this Page''
                               else ''Create Note for this Page'')"
    if "contextMenus ui = Some items \<and> items ''domain-memo-action'' = Some old" for items old
    using that by (simp add: eq Let_def)
  show ?thesis
    unfolding Let_def n_def [symmetric] ui'_def [symmetric]
    using pos zero menu String_nat_decimal [of n] by (intro conjI allI impI) simp_all
qed

theorem updateBadgeAndMenu_badge_and_label_witness:
  "badgeText (updateBadgeAndMenu 7 ''https://example.com/a''
       (Some [(''n1'', memoOf ''n1'' ''A'' ''example.com'' ''https://example.com/a'' 1)])
       \<lparr> badgeText = Map.empty, badgeColor = Map.empty,
         contextMenus = Some [''domain-memo-action'' \<mapsto> ''Create Note for this Page''] \<rparr>) 7 = Some ''1''
   \<and> badgeColor (updateBadgeAndMenu 7 ''https://example.com/a''
       (Some [(''n1'', memoOf ''n1'' ''A'' ''example.com'' ''https://example.com/a'' 1)])
       \<lparr> badgeText = Map.empty, badgeColor = Map.empty,
         contextMenus = Some [''domain-memo-action'' \<mapsto> ''Create Note for this Page''] \<rparr>) 7 = Some ''#22c55e''
   \<and> (\<exists>items'. contextMenus (updateBadgeAndMenu 7 ''https://example.com/a''
       (Some [(''n1'', memoOf ''n1'' ''A'' ''example.com'' ''https://example.com/a'' 1)])
       \<lparr> badgeText = Map.empty, badgeColor = Map.empty,
         contextMenus = Some [''domain-memo-action'' \<mapsto> ''Create Note for this Page''] \<rparr>) = Some items'
        \<and> items' ''domain-memo-action'' = Some ''Open Note for this Page'')
   \<and> badgeText (updateBadgeAndMenu 7 ''https://example.com/b''
       (Some [(''n1'', memoOf ''n1'' ''A'' ''example.com'' ''https://example.com/a'' 1)])
       \<lparr> badgeText = [7 \<mapsto> ''1''], badgeColor = [7 \<mapsto> ''#22c55e''],
         contextMenus = Some [''domain-memo-action'' \<mapsto> ''Open Note for this Page''] \<rparr>) 7 = Some []
   \<and> (\<exists>items'. contextMenus (updateBadgeAndMenu 7 ''https://example.com/b''
       (Some [(''n1'', memoOf ''n1'' ''A'' ''example.com'' ''https://example.com/a'' 1)])
       \<lparr> badgeText = [7 \<mapsto> ''1''], badgeColor = [7 \<mapsto> ''#22c55e''],
         contextMenus = Some [''domain-memo-action'' \<mapsto> ''Open Note for this Page''] \<rparr>) = Some items'
        \<and> items' ''domain-memo-action'' = Some ''Create Note for this Page'')"
proof -
  let ?st = "Some [(''n1'', memoOf ''n1'' ''A'' ''example.com'' ''https://example.com/a'' 1)]"
  have a: "length (filter (\<lambda>m. url m = ''https://example.com/a'') (getAllMemos ?st)) = 1"
    and b: "length (filter (\<lambda>m. url m = ''https://example.com/b'') (getAllMemos ?st)) = 0"
    by (simp_all add: store_eval)
  have one: "String_nat 1 = ''1''"
    by code_simp
  have ua: "''https://example.com/a'' \<noteq> []" and ub: "''https://example.com/b'' \<noteq> []"
    by simp_all
  show ?thesis
    using updateBadgeAndMenu_badge_and_label [OF ua, of ?st 7
        "\<lparr> badgeText = Map.empty, badgeColor = Map.empty,
           contextMenus = Some [''domain-memo-action'' \<mapsto> ''Create Note for this Page''] \<rparr>"]
      updateBadgeAndMenu_badge_and_label [OF ub, of ?st 7
        "\<lparr> badgeText = [7 \<mapsto> ''1''], badgeColor = [7 \<mapsto> ''#22c55e''],
           contextMenus = Some [''domain-memo-action'' \<mapsto> ''Open Note for this Page''] \<rparr>"]
    unfolding Let_def a b one
    by simp
qed


section \<open>Selection after a refresh\<close>

lemma find_first: "l \<noteq> [] \<Longrightarrow> find (\<lambda>m. id' m = id' (hd l)) l = Some (l ! 0)"
  by (cases l) simp_all

lemma find_present: "i \<in> id' ` set l \<Longrightarrow> \<exists>m. find (\<lambda>m. id' m = i) l = Some m \<and> id' m = i \<and> m \<in> set l"
  by (induction l) auto

lemma find_absent: "i \<notin> id' ` set l \<Longrightarrow> find (\<lambda>m. id' m = i) l = None"
  by (induction l) auto

lemma sorted_desc_hd:
  "sorted_wrt (\<lambda>a b. updatedAt b \<le> updatedAt a) l \<Longrightarrow> m \<in> set l \<Longrightarrow> updatedAt m \<le> updatedAt (l ! 0)"
  by (cases l) auto

lemma loaded_descending: "sorted_wrt (\<lambda>a b. updatedAt b \<le> updatedAt a) (loaded vm d st)"
  by (simp add: loaded_def getMemosByDomain_def Array_sort_descending split: option.splits)

text \<open>
  What a refresh does, in terms of the selected id. After \<open>fetchMemos\<close> (still mounted) the
  list is the loaded one. If no id was selected and the list is not empty, the note at
  index 0 is selected, and no note of the list was updated later than it. If a non-empty
  id was selected, it remains the selected id: the active note is the note of the list
  with that id, or absent when the list has none.
\<close>

lemma fetchMemos_selected_id:
  "let l = loaded vm d st; h' = fetchMemos True vm d st h
   in memos h' = l
    \<and> (activeMemoId h = None \<and> l \<noteq> [] \<longrightarrow>
          activeMemo h' = Some (l ! 0) \<and> (\<forall>m \<in> set l. updatedAt m \<le> updatedAt (l ! 0)))
    \<and> (\<forall>i. activeMemoId h = Some i \<and> i \<noteq> [] \<longrightarrow>
          activeMemoId h' = Some i
          \<and> (i \<in> id' ` set l \<longrightarrow> (\<exists>m. activeMemo h' = Some m \<and> id' m = i \<and> m \<in> set l))
          \<and> (i \<notin> id' ` set l \<longrightarrow> activeMemo h' = None))"
proof -
  define l where "l = loaded vm d st"
  define h' where "h' = fetchMemos True vm d st h"
  have h': "h' = showLoaded l h"
    by (simp add: h'_def l_def fetchMemos_def)
  have m: "memos h' = l"
    by (simp add: h' showLoaded_def Let_def)
  have none: "activeMemo h' = Some (l ! 0) \<and> (\<forall>m \<in> set l. updatedAt m \<le> updatedAt (l ! 0))"
    if "activeMemoId h = None \<and> l \<noteq> []"
  proof -
    from that have "activeMemoId h' = Some (id' (hd l))"
      by (simp add: h' showLoaded_def Let_def falsy_def)
    with that have "activeMemo h' = Some (l ! 0)"
      by (simp add: activeMemo_def m find_first)
    moreover have "\<forall>m \<in> set l. updatedAt m \<le> updatedAt (l ! 0)"
      using loaded_descending [of vm d st] sorted_desc_hd [of l] by (auto simp: l_def)
    ultimately show ?thesis
      by simp
  qed
  have some: "activeMemoId h' = Some i
          \<and> (i \<in> id' ` set l \<longrightarrow> (\<exists>m. activeMemo h' = Some m \<and> id' m = i \<and> m \<in> set l))
          \<and> (i \<notin> id' ` set l \<longrightarrow> activeMemo h' = None)"
    if "activeMemoId h = Some i \<and> i \<noteq> []" for i
  proof -
    from that have a: "activeMemoId h' = Some i"
      by (simp add: h' showLoaded_def Let_def falsy_def)
    then have "activeMemo h' = find (\<lambda>m. id' m = i) l"
      by (simp add: activeMemo_def m)
    then show ?thesis
      using a find_present [of i l] find_absent [of i l] by auto
  qed
  show ?thesis
    unfolding Let_def l_def [symmetric] h'_def [symmetric]
    using m none some by blast
qed

text \<open>
  C9. The specification, like the comment above the guard (\<open>if none selected\<close>), speaks of the
  selected note, which is \<open>activeMemo\<close>; the guard \<open>!activeMemoId\<close> tests the selected id.
  The two part in two ways.

  The id may be that of no note of the list. A note of \<open>other.org\<close> is selected and the
  domain becomes \<open>example.com\<close>: the refresh loads the two notes of \<open>example.com\<close>, keeps the
  id \<open>old\<close>, and no note is selected. The next refresh starts with no note selected and a
  list that is not empty, and it does not select the note at index 0: no refresh ever
  will.

  The id may be the empty string. The note with that id is selected and is in the
  refreshed list, and the refresh moves the selection to the note at index 0.
\<close>

theorem fetchMemos_guard_tests_id_not_note:
  "activeMemo \<lparr> memos = [memoOf ''old'' ''Old'' ''other.org'' ''https://other.org/'' 5],
                activeMemoId = Some ''old'', saveTimeoutRef = None \<rparr>
     = Some (memoOf ''old'' ''Old'' ''other.org'' ''https://other.org/'' 5)
   \<and> loaded DomainView (Some ''example.com'')
        (Some [(''a'', memoOf ''a'' ''A'' ''example.com'' ''https://example.com/a'' 1),
               (''b'', memoOf ''b'' ''B'' ''example.com'' ''https://example.com/b'' 2),
               (''old'', memoOf ''old'' ''Old'' ''other.org'' ''https://other.org/'' 5)])
     = [memoOf ''b'' ''B'' ''example.com'' ''https://example.com/b'' 2,
        memoOf ''a'' ''A'' ''example.com'' ''https://example.com/a'' 1]
   \<and> fetchMemos True DomainView (Some ''example.com'')
        (Some [(''a'', memoOf ''a'' ''A'' ''example.com'' ''https://example.com/a'' 1),
               (''b'', memoOf ''b'' ''B'' ''example.com'' ''https://example.com/b'' 2),
               (''old'', memoOf ''old'' ''Old'' ''other.org'' ''https://other.org/'' 5)])
        \<lparr> memos = [memoOf ''old'' ''Old'' ''other.org'' ''https://other.org/'' 5],
          activeMemoId = Some ''old'', saveTimeoutRef = None \<rparr>
     = \<lparr> memos = [memoOf ''b'' ''B'' ''example.com'' ''https://example.com/b'' 2,
                   memoOf ''a'' ''A'' ''example.com'' ''https://example.com/a'' 1],
         activeMemoId = Some ''old'', saveTimeoutRef = None \<rparr>
   \<and> activeMemo \<lparr> memos = [memoOf ''b'' ''B'' ''example.com'' ''https://example.com/b'' 2,
                           memoOf ''a'' ''A'' ''example.com'' ''https://example.com/a'' 1],
                  activeMemoId = Some ''old'', saveTimeoutRef = None \<rparr>
     = None
   \<and> activeMemo (fetchMemos True DomainView (Some ''example.com'')
        (Some [(''a'', memoOf ''a'' ''A'' ''example.com'' ''https://example.com/a'' 1),
               (''b'', memoOf ''b'' ''B'' ''example.com'' ''https://example.com/b'' 2),
               (''old'', memoOf ''old'' ''Old'' ''other.org'' ''https://other.org/'' 5)])
        \<lparr> memos = [memoOf ''b'' ''B'' ''example.com'' ''https://example.com/b'' 2,
                    memoOf ''a'' ''A'' ''example.com'' ''https://example.com/a'' 1],
          activeMemoId = Some ''old'', saveTimeoutRef = None \<rparr>)
     = None
   \<and> activeMemo \<lparr> memos = [memoOf ''a'' ''A'' ''example.com'' ''https://example.com/a'' 2,
                           memoOf [] ''E'' ''example.com'' ''https://example.com/e'' 1],
                  activeMemoId = Some [], saveTimeoutRef = None \<rparr>
     = Some (memoOf [] ''E'' ''example.com'' ''https://example.com/e'' 1)
   \<and> loaded DomainView (Some ''example.com'')
        (Some [(''a'', memoOf ''a'' ''A'' ''example.com'' ''https://example.com/a'' 2),
               ([], memoOf [] ''E'' ''example.com'' ''https://example.com/e'' 1)])
     = [memoOf ''a'' ''A'' ''example.com'' ''https://example.com/a'' 2,
        memoOf [] ''E'' ''example.com'' ''https://example.com/e'' 1]
   \<and> activeMemo (fetchMemos True DomainView (Some ''example.com'')
        (Some [(''a'', memoOf ''a'' ''A'' ''example.com'' ''https://example.com/a'' 2),
               ([], memoOf [] ''E'' ''example.com'' ''https://example.com/e'' 1)])
        \<lparr> memos = [memoOf ''a'' ''A'' ''example.com'' ''https://example.com/a'' 2,
                    memoOf [] ''E'' ''example.com'' ''https://example.com/e'' 1],
          activeMemoId = Some [], saveTimeoutRef = None \<rparr>)
     = Some (memoOf ''a'' ''A'' ''example.com'' ''https://example.com/a'' 2)"
  by (simp add: activeMemo_def fetchMemos_def showLoaded_def falsy_def loaded_def getMemosByDomain_def
      Array_sort_def byUpdatedAtDesc_def readMemos_def Object_values_def memoOf_def)


section \<open>Autosave\<close>

lemma debounced_cases:
  assumes "debounced r"
  obtains "timers r = []" | x where "timers r = [x]" "saveTimeoutRef (hookState r) = Some (fst x)" "fst x \<noteq> 0"
  using assms by (auto simp: debounced_def split: list.splits)

lemma debounced_length: "debounced r \<Longrightarrow> length (timers r) \<le> 1"
  by (erule debounced_cases) simp_all

lemma updateMemo_timers:
  assumes "debounced r"
  shows "timers (updateMemo m r) = [(nextHandle r, now r + 1000, m)]"
    and "saveTimeoutRef (hookState (updateMemo m r)) = Some (nextHandle r)"
    and "nextHandle (updateMemo m r) = Suc (nextHandle r)"
    and "now (updateMemo m r) = now r"
    and "saveLog (updateMemo m r) = saveLog r"
    and "store (updateMemo m r) = store r"
proof -
  from assms consider "timers r = []"
    | x where "timers r = [x]" "saveTimeoutRef (hookState r) = Some (fst x)" "fst x \<noteq> 0"
    by (auto elim: debounced_cases)
  then have "timers (updateMemo m r) = [(nextHandle r, now r + 1000, m)]
    \<and> saveTimeoutRef (hookState (updateMemo m r)) = Some (nextHandle r)
    \<and> nextHandle (updateMemo m r) = Suc (nextHandle r)
    \<and> now (updateMemo m r) = now r
    \<and> saveLog (updateMemo m r) = saveLog r
    \<and> store (updateMemo m r) = store r"
  proof cases
    case 1
    then show ?thesis
      by (cases "saveTimeoutRef (hookState r)")
        (simp_all add: updateMemo_def setTimeout_def clearTimeout_def Let_def)
  next
    case 2
    then show ?thesis
      by (simp add: updateMemo_def setTimeout_def clearTimeout_def Let_def)
  qed
  then show "timers (updateMemo m r) = [(nextHandle r, now r + 1000, m)]"
    and "saveTimeoutRef (hookState (updateMemo m r)) = Some (nextHandle r)"
    and "nextHandle (updateMemo m r) = Suc (nextHandle r)"
    and "now (updateMemo m r) = now r"
    and "saveLog (updateMemo m r) = saveLog r"
    and "store (updateMemo m r) = store r"
    by simp_all
qed

lemma debounced_updateMemo: "debounced r \<Longrightarrow> debounced (updateMemo m r)"
  using updateMemo_timers(1-3) [of r m] by (simp add: debounced_def)

lemma advanceTo_idle:
  assumes "timers r = []"
  shows "advanceTo t r = r\<lparr> now := max (now r) t \<rparr>"
  using assms by (simp add: advanceTo_def)

lemma advanceTo_waiting:
  assumes "timers r = [(h, due, m)]" and "\<not> due \<le> t"
  shows "advanceTo t r = r\<lparr> now := max (now r) t \<rparr>"
  using assms by (simp add: advanceTo_def)

lemma advanceTo_due:
  assumes "timers r = [(h, due, m)]" and "due \<le> t"
  shows "advanceTo t r =
     r\<lparr> timers := [], now := max (max (now r) due) t, store := saveMemo m (store r),
        saveLog := saveLog r @ [(max (now r) due, m)] \<rparr>"
  using assms by (simp add: advanceTo_def runTimer_def)

lemma debounced_advanceTo:
  assumes d: "debounced r"
  shows "debounced (advanceTo t r)"
proof -
  from d consider "timers r = []" | x where "timers r = [x]"
    by (auto elim: debounced_cases)
  then show ?thesis
  proof cases
    case 1
    with d show ?thesis
      by (simp add: advanceTo_idle debounced_def)
  next
    case 2
    obtain h due m where xx: "x = (h, due, m)"
      by (cases x)
    show ?thesis
    proof (cases "due \<le> t")
      case True
      then show ?thesis
        using d 2 xx by (simp add: advanceTo_due debounced_def)
    next
      case False
      then show ?thesis
        using d 2 xx by (simp add: advanceTo_waiting debounced_def)
    qed
  qed
qed

lemma debounced_edits: "debounced r \<Longrightarrow> debounced (edits es r)"
  by (induction es arbitrary: r) (auto simp: debounced_updateMemo debounced_advanceTo)

lemma debounced_initial: "debounced (initialRuntime st)"
  by (simp add: debounced_def initialRuntime_def)


lemma saves_after_edit:
  assumes "debounced r" and "timers r = [(h, now r + 1000, m)]"
    and "sorted (now r # map fst es)" and "\<forall>t \<in> set (now r # map fst es). t \<le> T"
  shows "saveLog (advanceTo T (edits es r)) = saveLog r @ expectedSaves ((now r, m) # es) T
       \<and> store (advanceTo T (edits es r))
           = fold saveMemo (map snd (expectedSaves ((now r, m) # es) T)) (store r)"
  using assms
proof (induction es arbitrary: r h m)
  case Nil
  then show ?case
    by (cases "now r + 1000 \<le> T") (simp_all add: advanceTo_due advanceTo_waiting)
next
  case (Cons e es)
  obtain t' m' where e: "e = (t', m')"
    by (cases e)
  from Cons.prems e have le: "now r \<le> t'" and T: "t' \<le> T"
    and srt: "sorted (t' # map fst es)" and bnd: "\<forall>t \<in> set (t' # map fst es). t \<le> T"
    by auto
  define r1 where "r1 = advanceTo t' r"
  define r2 where "r2 = updateMemo m' r1"
  have d1: "debounced r1"
    using Cons.prems(1) by (simp add: r1_def debounced_advanceTo)
  have r1: "now r1 = t'
      \<and> saveLog r1 = saveLog r @ (if now r + 1000 \<le> t' then [(now r + 1000, m)] else [])
      \<and> store r1 = fold saveMemo (map snd (if now r + 1000 \<le> t' then [(now r + 1000, m)] else [])) (store r)"
    using Cons.prems(2) le
    by (cases "now r + 1000 \<le> t'") (simp_all add: r1_def advanceTo_due advanceTo_waiting)
  have d2: "debounced r2"
    using d1 by (simp add: r2_def debounced_updateMemo)
  have t2: "timers r2 = [(nextHandle r1, now r2 + 1000, m')]" and n2: "now r2 = t'"
    and l2: "saveLog r2 = saveLog r1" and s2: "store r2 = store r1"
    using updateMemo_timers [OF d1, of m'] r1 by (simp_all add: r2_def)
  have "saveLog (advanceTo T (edits es r2)) = saveLog r2 @ expectedSaves ((now r2, m') # es) T
       \<and> store (advanceTo T (edits es r2))
           = fold saveMemo (map snd (expectedSaves ((now r2, m') # es) T)) (store r2)"
    using srt bnd by (intro Cons.IH [OF d2 t2]) (simp_all add: n2)
  then show ?case
    using r1 by (simp add: e r1_def [symmetric] r2_def [symmetric] n2 l2 s2)
qed

text \<open>
  C8. Starting from the initial state of the hook, after any sequence of edits, and after
  any lapse of time following it, at most one timer is pending. When the edits come in
  the order of their times and are observed until \<open>T\<close>, the saves made are exactly
  \<open>expectedSaves\<close>: one for each edit that no other edit follows within 1000 ms, carrying
  the record of that edit, 1000 ms after it; and the store is the result of these saves.
  The example of edits at 0 and 500 is the witness below: one save, of the second
  record, at 1500.
\<close>

theorem autosave_one_timer_one_save:
  "length (timers (edits es (initialRuntime st))) \<le> 1
   \<and> length (timers (advanceTo T (edits es (initialRuntime st)))) \<le> 1
   \<and> (sorted (map fst es) \<and> (\<forall>t \<in> set (map fst es). t \<le> T) \<longrightarrow>
        saveLog (advanceTo T (edits es (initialRuntime st))) = expectedSaves es T
        \<and> store (advanceTo T (edits es (initialRuntime st)))
            = fold saveMemo (map snd (expectedSaves es T)) st)"
proof (intro conjI impI)
  show "length (timers (edits es (initialRuntime st))) \<le> 1"
    by (intro debounced_length debounced_edits debounced_initial)
  show "length (timers (advanceTo T (edits es (initialRuntime st)))) \<le> 1"
    by (intro debounced_length debounced_advanceTo debounced_edits debounced_initial)
next
  assume a: "sorted (map fst es) \<and> (\<forall>t \<in> set (map fst es). t \<le> T)"
  have "saveLog (advanceTo T (edits es (initialRuntime st))) = expectedSaves es T
        \<and> store (advanceTo T (edits es (initialRuntime st)))
            = fold saveMemo (map snd (expectedSaves es T)) st"
  proof (cases es)
    case Nil
    then show ?thesis
      by (simp add: advanceTo_idle initialRuntime_def)
  next
    case (Cons e es')
    obtain t m where e: "e = (t, m)"
      by (cases e)
    define r0 where "r0 = advanceTo t (initialRuntime st)"
    define r where "r = updateMemo m r0"
    have d0: "debounced r0"
      unfolding r0_def by (intro debounced_advanceTo debounced_initial)
    have "timers (initialRuntime st) = []"
      by (simp add: initialRuntime_def)
    then have "r0 = (initialRuntime st)\<lparr> now := max (now (initialRuntime st)) t \<rparr>"
      unfolding r0_def by (rule advanceTo_idle)
    then have a0: "now r0 = t" "saveLog r0 = []" "store r0 = st"
      by (simp_all add: initialRuntime_def)
    have d: "debounced r"
      using d0 by (simp add: r_def debounced_updateMemo)
    have r: "timers r = [(nextHandle r0, now r + 1000, m)]"
      "now r = t" "saveLog r = []" "store r = st"
      using updateMemo_timers [OF d0, of m] a0 by (simp_all add: r_def)
    have "saveLog (advanceTo T (edits es' r)) = saveLog r @ expectedSaves ((now r, m) # es') T
       \<and> store (advanceTo T (edits es' r))
           = fold saveMemo (map snd (expectedSaves ((now r, m) # es') T)) (store r)"
      using a Cons e by (intro saves_after_edit [OF d r(1)]) (simp_all add: r(2))
    then show ?thesis
      by (simp add: Cons e r_def [symmetric] r0_def [symmetric] r(2-4))
  qed
  then show "saveLog (advanceTo T (edits es (initialRuntime st))) = expectedSaves es T"
    and "store (advanceTo T (edits es (initialRuntime st)))
            = fold saveMemo (map snd (expectedSaves es T)) st"
    by simp_all
qed

theorem autosave_one_timer_one_save_witness:
  "sorted (map fst [(0::nat, memoOf ''n1'' ''E1'' ''example.com'' ''https://example.com/'' 1),
                    (500, memoOf ''n1'' ''E2'' ''example.com'' ''https://example.com/'' 1)])
   \<and> saveLog (advanceTo 2000 (edits [(0::nat, memoOf ''n1'' ''E1'' ''example.com'' ''https://example.com/'' 1),
                    (500, memoOf ''n1'' ''E2'' ''example.com'' ''https://example.com/'' 1)] (initialRuntime None)))
       = [(1500, memoOf ''n1'' ''E2'' ''example.com'' ''https://example.com/'' 1)]
   \<and> getAllMemos (store (advanceTo 2000 (edits [(0::nat, memoOf ''n1'' ''E1'' ''example.com'' ''https://example.com/'' 1),
                    (500, memoOf ''n1'' ''E2'' ''example.com'' ''https://example.com/'' 1)] (initialRuntime None))))
       = [memoOf ''n1'' ''E2'' ''example.com'' ''https://example.com/'' 1]
   \<and> saveLog (advanceTo 1499 (edits [(0::nat, memoOf ''n1'' ''E1'' ''example.com'' ''https://example.com/'' 1),
                    (500, memoOf ''n1'' ''E2'' ''example.com'' ''https://example.com/'' 1)] (initialRuntime None)))
       = []"
proof -
  let ?es = "[(0::nat, memoOf ''n1'' ''E1'' ''example.com'' ''https://example.com/'' 1),
              (500, memoOf ''n1'' ''E2'' ''example.com'' ''https://example.com/'' 1)]"
  have a: "sorted (map fst ?es) \<and> (\<forall>t \<in> set (map fst ?es). t \<le> 2000)"
    and b: "sorted (map fst ?es) \<and> (\<forall>t \<in> set (map fst ?es). t \<le> 1499)"
    by simp_all
  have e: "expectedSaves ?es 2000 = [(1500, memoOf ''n1'' ''E2'' ''example.com'' ''https://example.com/'' 1)]"
    and f: "expectedSaves ?es 1499 = []"
    by simp_all
  have "saveLog (advanceTo 2000 (edits ?es (initialRuntime None))) = expectedSaves ?es 2000
      \<and> store (advanceTo 2000 (edits ?es (initialRuntime None)))
          = fold saveMemo (map snd (expectedSaves ?es 2000)) None"
    by (rule mp [OF conjunct2 [OF conjunct2 [OF autosave_one_timer_one_save]] a])
  then have 1: "saveLog (advanceTo 2000 (edits ?es (initialRuntime None)))
        = [(1500, memoOf ''n1'' ''E2'' ''example.com'' ''https://example.com/'' 1)]"
    and 2: "store (advanceTo 2000 (edits ?es (initialRuntime None)))
        = saveMemo (memoOf ''n1'' ''E2'' ''example.com'' ''https://example.com/'' 1) None"
    unfolding e by simp_all
  have "saveLog (advanceTo 1499 (edits ?es (initialRuntime None))) = expectedSaves ?es 1499
      \<and> store (advanceTo 1499 (edits ?es (initialRuntime None)))
          = fold saveMemo (map snd (expectedSaves ?es 1499)) None"
    by (rule mp [OF conjunct2 [OF conjunct2 [OF autosave_one_timer_one_save]] b])
  then have 3: "saveLog (advanceTo 1499 (edits ?es (initialRuntime None))) = []"
    unfolding f by simp
  have 4: "getAllMemos (saveMemo (memoOf ''n1'' ''E2'' ''example.com'' ''https://example.com/'' 1) None)
      = [memoOf ''n1'' ''E2'' ''example.com'' ''https://example.com/'' 1]"
    by (simp add: getAllMemos_def saveMemo_def readMemos_def setProperty_def Object_values_def
        memoOf_def arrayIndex_def isDigit_def)
  show ?thesis
    unfolding 1 2 3 4 using a by simp
qed

end
